theory Spec2Isabelle
  imports Main "HOL-Library.Sublist" "HOL-Library.Multiset" "HOL-Library.Word"
begin

section \<open>The uploader of package remotestorage (uploader.go)\<close>

text \<open>
  The two methods of \<open>GoogleCloudStorage\<close>, \<open>UploadFile\<close> and \<open>UploadDir\<close>, are
  sequences of calls to collaborators (the storage library, the file system, the logger)
  whose only result the methods look at is an error value.  The embedding makes both
  sides explicit:
  \<^item> what a collaborator answers is read from a \<open>world\<close>, a record with one field per
    collaborator call, named as in the source;
  \<^item> what the method does is appended, call by call, to a trace of \<open>event\<close>s, so that
    statements such as ``nothing is written before ...'' are statements about a list;
  \<^item> a Go \<open>error\<close> return is an \<open>error option\<close>, with \<open>None\<close> for \<open>nil\<close>;
  \<^item> the goroutines of \<open>UploadDir\<close> each have a trace of their own, ending in the
    channel send, and the \<open>select\<close> of the coordinating loop takes one of the pending
    sends, chosen by a scheduler that is a parameter of the model.

  Every call of a collaborator returns: the fields of the world are total functions, so a
  call that hangs is outside the model, and every goroutine reaches its send.  The
  channels are unbuffered, so a send that is never received is never completed; it is
  still listed as the one send of its goroutine.  The scheduler may take any pending
  send, which covers every order in which the goroutines can become ready.  The errors
  that the two deferred \<open>Close\<close> calls return are discarded by the source and are not
  part of the world.
\<close>

subsection \<open>Data\<close>

type_synonym bytes = "8 word list"

text \<open>A Go error value; \<open>Error\<close> is its message, \<open>Errorf\<close> builds one (fmt.Errorf).\<close>

datatype error = Errorf (Error: string)

text \<open>
  \<open>Op\<close> is declared in another file of the package; the uploader reads its
  \<open>ContentType\<close> field only.  The \<open>ret\<close> that the methods build with
  \<open>applyOpts\<close> is a parameter of the model; the zero value of the field is the empty
  string.
\<close>

record Op =
  ContentType :: string

text \<open>The struct of the receiver; \<open>'c\<close> stands for the library's \<open>jwt.Config\<close>.\<close>

record 'c GoogleCloudStorage =
  JSONKey :: bytes
  Project :: string
  Config :: 'c

text \<open>
  The collaborators.  \<open>walkRecursive\<close> is a function of the package that is defined
  in another file: its result is taken from the world like the library's.  The Go map it
  returns is the list of its entries (source, destination), in the order in which
  \<open>range\<close> will visit them.  The writer of an object is identified by bucket and
  object name.
\<close>

record 'c world =
  JWTConfigFromJSON :: "bytes \<Rightarrow> error + 'c"
  NewAdminClient :: "string \<Rightarrow> 'c \<Rightarrow> error option"
  CreateBucket :: "string \<Rightarrow> error option"
  NewClient :: "'c \<Rightarrow> error option"
  walkRecursive :: "string \<Rightarrow> error + (string \<times> string) list"
  ReadFile :: "string \<Rightarrow> error + bytes"
  Write :: "string \<Rightarrow> string \<Rightarrow> bytes \<Rightarrow> error option"
  Close :: "string \<Rightarrow> string \<Rightarrow> error option"

datatype event =
    EvNewAdminClient string
  | EvAdminClose
  | EvCreateBucket string
  | EvNewClient
  | EvClientClose
  | EvWalkRecursive string
  | EvNewWriter string string
  | EvSetContentType string string string
  | EvLog string
  | EvReadFile string
  | EvWrite string string bytes
  | EvCloseWriter string string
  | EvGo string string
  | EvSendDone
  | EvSendErr error
  | EvRecvDone
  | EvRecvErr error

subsection \<open>strings.Contains\<close>

fun Contains :: "string \<Rightarrow> string \<Rightarrow> bool" where
  "Contains [] substr = (substr = [])"
| "Contains (c # s) substr = (prefix substr (c # s) \<or> Contains s substr)"

text \<open>The test both methods apply to the error of \<open>CreateBucket\<close>.\<close>

definition already_owned :: "error \<Rightarrow> bool" where
  "already_owned err =
     Contains (Error err) ''You already own this bucket. Please select another name''"

subsection \<open>NewGoogleCloudStorage\<close>

definition NewGoogleCloudStorage ::
  "'c world \<Rightarrow> bytes \<Rightarrow> string \<Rightarrow> error + 'c GoogleCloudStorage" where
  "NewGoogleCloudStorage w key project =
     (case JWTConfigFromJSON w key of
        Inl err \<Rightarrow> Inl err
      | Inr conf \<Rightarrow> Inr \<lparr>JSONKey = key, Project = project, Config = conf\<rparr>)"

subsection \<open>UploadFile\<close>

text \<open>Lines 84 to 101: the writer, the content type, the read, the write, the close.\<close>

definition UploadFile_object ::
  "'c world \<Rightarrow> Op \<Rightarrow> string \<Rightarrow> string \<Rightarrow> string \<Rightarrow> error option \<times> event list" where
  "UploadFile_object w ret bucket src dst =
     (let t = [EvNewWriter bucket dst]
              @ (if ContentType ret \<noteq> [] then [EvSetContentType bucket dst (ContentType ret)]
                 else [])
              @ [EvLog (''UploadFile: '' @ src @ '' ---> '' @ dst), EvReadFile src]
      in case ReadFile w src of
           Inl err \<Rightarrow> (Some err, t)
         | Inr bts \<Rightarrow>
             (case Write w bucket dst bts of
                Some err \<Rightarrow> (Some err, t @ [EvWrite bucket dst bts])
              | None \<Rightarrow>
                  (case Close w bucket dst of
                     Some err \<Rightarrow> (Some err, t @ [EvWrite bucket dst bts, EvCloseWriter bucket dst])
                   | None \<Rightarrow>
                       (None, t @ [EvWrite bucket dst bts, EvCloseWriter bucket dst,
                                   EvLog ''UploadFile success'']))))"

text \<open>Lines 77 to 82, then the above; \<open>client.Close\<close> is deferred and runs at the return.\<close>

definition UploadFile_client ::
  "'c world \<Rightarrow> 'c GoogleCloudStorage \<Rightarrow> Op \<Rightarrow> string \<Rightarrow> string \<Rightarrow> string
     \<Rightarrow> error option \<times> event list" where
  "UploadFile_client w gcs ret bucket src dst =
     (case NewClient w (Config gcs) of
        Some err \<Rightarrow> (Some err, [EvNewClient])
      | None \<Rightarrow>
          (case UploadFile_object w ret bucket src dst of
             (r, t) \<Rightarrow> (r, [EvNewClient] @ t @ [EvClientClose])))"

text \<open>
  The method.  The receiver is a pointer: \<open>None\<close> is \<open>nil\<close>.  \<open>admin.Close\<close> is
  deferred once the admin client exists and runs at every later return.
\<close>

definition UploadFile ::
  "'c world \<Rightarrow> 'c GoogleCloudStorage option \<Rightarrow> string \<Rightarrow> string \<Rightarrow> string \<Rightarrow> Op
     \<Rightarrow> error option \<times> event list" where
  "UploadFile w g bucket src dst ret =
     (case g of
        None \<Rightarrow> (Some (Errorf ''GoogleCloudStorage is nil''), [])
      | Some gcs \<Rightarrow>
          (case NewAdminClient w (Project gcs) (Config gcs) of
             Some err \<Rightarrow> (Some err, [EvNewAdminClient (Project gcs)])
           | None \<Rightarrow>
               (let t = [EvNewAdminClient (Project gcs), EvCreateBucket bucket];
                    continue = (case UploadFile_client w gcs ret bucket src dst of
                                  (r, t') \<Rightarrow> (r, t @ t' @ [EvAdminClose]))
                in case CreateBucket w bucket of
                     Some err \<Rightarrow>
                       if \<not> already_owned err then (Some err, t @ [EvAdminClose])
                       else continue
                   | None \<Rightarrow> continue)))"

subsection \<open>UploadDir\<close>

text \<open>What travels on the two channels: a token on \<open>donec\<close> or an error on \<open>errc\<close>.\<close>

datatype signal = Done | Err error

text \<open>
  The goroutine of lines 138 to 158, for one entry of the map.  Every branch ends in one
  send; the trace stops there, whether or not the send is ever received.
\<close>

definition UploadDir_task ::
  "'c world \<Rightarrow> Op \<Rightarrow> string \<Rightarrow> string \<Rightarrow> string \<Rightarrow> event list" where
  "UploadDir_task w ret bucket src dst =
     (let t = [EvLog (''UploadDir: '' @ src @ '' ---> '' @ dst), EvNewWriter bucket dst]
              @ (if ContentType ret \<noteq> [] then [EvSetContentType bucket dst (ContentType ret)]
                 else [])
              @ [EvReadFile src]
      in case ReadFile w src of
           Inl err \<Rightarrow> t @ [EvSendErr err]
         | Inr bts \<Rightarrow>
             (case Write w bucket dst bts of
                Some err \<Rightarrow> t @ [EvWrite bucket dst bts, EvSendErr err]
              | None \<Rightarrow>
                  (case Close w bucket dst of
                     Some err \<Rightarrow>
                       t @ [EvWrite bucket dst bts, EvCloseWriter bucket dst, EvSendErr err]
                   | None \<Rightarrow>
                       t @ [EvWrite bucket dst bts, EvCloseWriter bucket dst, EvSendDone])))"

text \<open>The sends of a trace, in order.\<close>

fun sends :: "event list \<Rightarrow> signal list" where
  "sends [] = []"
| "sends (EvSendDone # t) = Done # sends t"
| "sends (EvSendErr err # t) = Err err # sends t"
| "sends (_ # t) = sends t"

text \<open>
  The scheduler: given the sends that wait for a receiver, the position of the one the
  \<open>select\<close> takes (read modulo their number, so that every function is a scheduler).
\<close>

type_synonym sched = "signal list \<Rightarrow> nat"

definition chosen :: "sched \<Rightarrow> signal list \<Rightarrow> nat" where
  "chosen pick pending = pick pending mod length pending"

definition others :: "sched \<Rightarrow> signal list \<Rightarrow> signal list" where
  "others pick pending =
     take (chosen pick pending) pending @ drop (Suc (chosen pick pending)) pending"

text \<open>
  The loop of lines 161 to 169.  It ends by falling through (\<open>cnt = num\<close>), by the
  \<open>return err\<close> of the second case, or not at all: with nothing to receive and
  \<open>cnt \<noteq> num\<close> the \<open>select\<close> blocks for ever.
\<close>

datatype loop_exit = LoopDone | LoopReturn error | LoopBlocked

function wait_loop ::
  "sched \<Rightarrow> nat \<Rightarrow> nat \<Rightarrow> signal list \<Rightarrow> event list
     \<Rightarrow> loop_exit \<times> event list \<times> signal list" where
  "wait_loop pick cnt num pending t =
     (if cnt = num then (LoopDone, t, pending)
      else if pending = [] then (LoopBlocked, t, pending)
      else (case pending ! chosen pick pending of
              Done \<Rightarrow> wait_loop pick (cnt + 1) num (others pick pending) (t @ [EvRecvDone])
            | Err err \<Rightarrow> (LoopReturn err, t @ [EvRecvErr err], others pick pending)))"
  by pat_completeness auto
termination
proof (relation "measure (\<lambda>(pick, cnt, num, pending, t). length pending)", goal_cases)
  case 1
  show ?case by simp
next
  case (2 pick cnt num pending t)
  from 2 have "chosen pick pending < length pending"
    by (simp add: chosen_def)
  then show ?case
    by (simp add: others_def)
qed

text \<open>
  A call of a method either returns an error value or never returns.  A run of
  \<open>UploadDir\<close> is that, the trace of the calling goroutine, the traces of the goroutines
  it started, and the sends that nobody received.
\<close>

datatype outcome = Returned "error option" | Blocked

record dir_run =
  outcome :: outcome
  events :: "event list"
  task_events :: "event list list"
  unreceived :: "signal list"

text \<open>Lines 136 to 171: the fan-out over the map, the loop, the success return.\<close>

definition UploadDir_fanout ::
  "sched \<Rightarrow> 'c world \<Rightarrow> Op \<Rightarrow> string \<Rightarrow> (string \<times> string) list \<Rightarrow> dir_run" where
  "UploadDir_fanout pick w ret bucket fmap =
     (let tasks = map (\<lambda>(source, destination). UploadDir_task w ret bucket source destination) fmap;
          gos = map (\<lambda>(source, destination). EvGo source destination) fmap
      in case wait_loop pick 0 (length fmap) (concat (map sends tasks)) gos of
           (LoopDone, t, rest) \<Rightarrow>
             \<lparr>outcome = Returned None, events = t @ [EvLog ''UploadDir success''],
              task_events = tasks, unreceived = rest\<rparr>
         | (LoopReturn err, t, rest) \<Rightarrow>
             \<lparr>outcome = Returned (Some err), events = t, task_events = tasks, unreceived = rest\<rparr>
         | (LoopBlocked, t, rest) \<Rightarrow>
             \<lparr>outcome = Blocked, events = t, task_events = tasks, unreceived = rest\<rparr>)"

text \<open>A deferred call runs when the method returns, and only then.\<close>

definition deferred :: "event \<Rightarrow> dir_run \<Rightarrow> dir_run" where
  "deferred ev r =
     (case outcome r of
        Returned x \<Rightarrow> r\<lparr>events := events r @ [ev]\<rparr>
      | Blocked \<Rightarrow> r)"

definition before :: "event list \<Rightarrow> dir_run \<Rightarrow> dir_run" where
  "before t r = r\<lparr>events := t @ events r\<rparr>"

definition returns :: "error option \<Rightarrow> event list \<Rightarrow> dir_run" where
  "returns x t = \<lparr>outcome = Returned x, events = t, task_events = [], unreceived = []\<rparr>"

text \<open>Lines 124 to 171.\<close>

definition UploadDir_client ::
  "sched \<Rightarrow> 'c world \<Rightarrow> 'c GoogleCloudStorage \<Rightarrow> Op \<Rightarrow> string \<Rightarrow> string \<Rightarrow> dir_run" where
  "UploadDir_client pick w gcs ret bucket src =
     (case NewClient w (Config gcs) of
        Some err \<Rightarrow> returns (Some err) [EvNewClient]
      | None \<Rightarrow>
          deferred EvClientClose
            (case walkRecursive w src of
               Inl err \<Rightarrow> returns (Some err) [EvNewClient, EvWalkRecursive src]
             | Inr fmap \<Rightarrow>
                 before [EvNewClient, EvWalkRecursive src]
                   (UploadDir_fanout pick w ret bucket fmap)))"

text \<open>The method; its parameter \<open>dst\<close> is not used by the source.\<close>

definition UploadDir ::
  "sched \<Rightarrow> 'c world \<Rightarrow> 'c GoogleCloudStorage option \<Rightarrow> string \<Rightarrow> string \<Rightarrow> string \<Rightarrow> Op
     \<Rightarrow> dir_run" where
  "UploadDir pick w g bucket src dst ret =
     (case g of
        None \<Rightarrow> returns (Some (Errorf ''GoogleCloudStorage is nil'')) []
      | Some gcs \<Rightarrow>
          (case NewAdminClient w (Project gcs) (Config gcs) of
             Some err \<Rightarrow> returns (Some err) [EvNewAdminClient (Project gcs)]
           | None \<Rightarrow>
               (let t = [EvNewAdminClient (Project gcs), EvCreateBucket bucket];
                    continue = deferred EvAdminClose
                                 (before t (UploadDir_client pick w gcs ret bucket src))
                in case CreateBucket w bucket of
                     Some err \<Rightarrow>
                       if \<not> already_owned err then returns (Some err) (t @ [EvAdminClose])
                       else continue
                   | None \<Rightarrow> continue)))"

subsection \<open>Reading traces\<close>

text \<open>The receives of the calling goroutine, in order, and the event of a receive.\<close>

fun recvs :: "event list \<Rightarrow> signal list" where
  "recvs [] = []"
| "recvs (EvRecvDone # t) = Done # recvs t"
| "recvs (EvRecvErr err # t) = Err err # recvs t"
| "recvs (_ # t) = recvs t"

fun recv_event :: "signal \<Rightarrow> event" where
  "recv_event Done = EvRecvDone"
| "recv_event (Err err) = EvRecvErr err"

fun exit_recv :: "loop_exit \<Rightarrow> signal list" where
  "exit_recv (LoopReturn err) = [Err err]"
| "exit_recv _ = []"

fun is_go :: "event \<Rightarrow> bool" where
  "is_go (EvGo _ _) = True"
| "is_go _ = False"

fun is_write :: "event \<Rightarrow> bool" where
  "is_write (EvWrite _ _ _) = True"
| "is_write _ = False"

fun is_set_content_type :: "event \<Rightarrow> bool" where
  "is_set_content_type (EvSetContentType _ _ _) = True"
| "is_set_content_type _ = False"

text \<open>The calls of the storage library and of the file system (what could be retried).\<close>

fun is_call :: "event \<Rightarrow> bool" where
  "is_call (EvLog _) = False"
| "is_call (EvGo _ _) = False"
| "is_call EvSendDone = False"
| "is_call (EvSendErr _) = False"
| "is_call EvRecvDone = False"
| "is_call (EvRecvErr _) = False"
| "is_call _ = True"

text \<open>
  The error a call met: what the world answered to the call that an event records, for
  the calls whose error the methods look at.  An error of \<open>CreateBucket\<close> that carries
  the already-owned text is skipped by both methods and counts as no error here.
\<close>

fun answer :: "'c world \<Rightarrow> 'c GoogleCloudStorage \<Rightarrow> event \<Rightarrow> error option" where
  "answer w gcs (EvNewAdminClient project) = NewAdminClient w project (Config gcs)"
| "answer w gcs (EvCreateBucket bucket) =
     (case CreateBucket w bucket of
        None \<Rightarrow> None
      | Some err \<Rightarrow> if already_owned err then None else Some err)"
| "answer w gcs EvNewClient = NewClient w (Config gcs)"
| "answer w gcs (EvWalkRecursive src) =
     (case walkRecursive w src of Inl err \<Rightarrow> Some err | Inr fmap \<Rightarrow> None)"
| "answer w gcs (EvReadFile src) =
     (case ReadFile w src of Inl err \<Rightarrow> Some err | Inr bts \<Rightarrow> None)"
| "answer w gcs (EvWrite bucket object bts) = Write w bucket object bts"
| "answer w gcs (EvCloseWriter bucket object) = Close w bucket object"
| "answer w gcs _ = None"

text \<open>
  Bucket provisioning lets the method go on: \<open>CreateBucket\<close> succeeded, or failed with
  the message of a bucket the caller owns.
\<close>

definition provisioned :: "'c world \<Rightarrow> string \<Rightarrow> bool" where
  "provisioned w bucket =
     (case CreateBucket w bucket of None \<Rightarrow> True | Some err \<Rightarrow> already_owned err)"

subsection \<open>Concrete inputs\<close>

text \<open>
  A receiver, the tree of two files \<open>a.txt\<close> and \<open>sub/b.txt\<close> under \<open>/root\<close>, a world
  in which every call succeeds and the walk finds a given map, and two schedulers.
\<close>

definition gcs0 :: "unit GoogleCloudStorage" where
  "gcs0 = \<lparr>JSONKey = [], Project = ''proj'', Config = ()\<rparr>"

definition tree :: "(string \<times> string) list" where
  "tree = [(''/root/a.txt'', ''a.txt''), (''/root/sub/b.txt'', ''sub/b.txt'')]"

definition ok_world :: "(string \<times> string) list \<Rightarrow> unit world" where
  "ok_world fmap =
     \<lparr>JWTConfigFromJSON = (\<lambda>key. Inr ()),
      NewAdminClient = (\<lambda>project conf. None),
      CreateBucket = (\<lambda>bucket. None),
      NewClient = (\<lambda>conf. None),
      walkRecursive = (\<lambda>root. Inr fmap),
      ReadFile = (\<lambda>path. Inr [104, 105]),
      Write = (\<lambda>bucket object bts. None),
      Close = (\<lambda>bucket object. None)\<rparr>"

definition denied :: error where
  "denied = Errorf ''open /root/sub/b.txt: permission denied''"

definition owned :: error where
  "owned = Errorf ''googleapi: Error 409: You already own this bucket. Please select another name., conflict''"

definition forbidden :: error where
  "forbidden = Errorf ''googleapi: Error 403: Forbidden, forbidden''"

text \<open>A world in which \<open>/root/sub/b.txt\<close> cannot be read.\<close>

definition unreadable_world :: "unit world" where
  "unreadable_world =
     (ok_world tree)\<lparr>ReadFile :=
        (\<lambda>path. if path = ''/root/sub/b.txt'' then Inl denied else Inr [104, 105])\<rparr>"

text \<open>A world in which no file can be read; the error names the file.\<close>

definition locked_world :: "unit world" where
  "locked_world =
     (ok_world tree)\<lparr>ReadFile := (\<lambda>path. Inl (Errorf (''open '' @ path @ '': permission denied'')))\<rparr>"

text \<open>Worlds in which \<open>CreateBucket\<close> fails, with one message or the other.\<close>

definition owned_world :: "unit world" where
  "owned_world = (ok_world tree)\<lparr>CreateBucket := (\<lambda>bucket. Some owned)\<rparr>"

definition forbidden_world :: "unit world" where
  "forbidden_world = (ok_world tree)\<lparr>CreateBucket := (\<lambda>bucket. Some forbidden)\<rparr>"

definition first_ready :: sched where
  "first_ready pending = 0"

definition last_ready :: sched where
  "last_ready pending = length pending - 1"

section \<open>Properties\<close>

subsection \<open>The loop\<close>

lemma chosen_less: "pending \<noteq> [] \<Longrightarrow> chosen pick pending < length pending"
  by (simp add: chosen_def)

lemma pending_split:
  "pending \<noteq> [] \<Longrightarrow>
   pending = take (chosen pick pending) pending @ pending ! chosen pick pending
             # drop (Suc (chosen pick pending)) pending"
  by (rule id_take_nth_drop) (rule chosen_less)

lemma length_others: "pending \<noteq> [] \<Longrightarrow> Suc (length (others pick pending)) = length pending"
  using chosen_less [of pending pick] by (simp add: others_def)

lemma set_others:
  "pending \<noteq> [] \<Longrightarrow>
   set pending = insert (pending ! chosen pick pending) (set (others pick pending))"
proof -
  assume ne: "pending \<noteq> []"
  have "set pending = set (take (chosen pick pending) pending @ pending ! chosen pick pending
             # drop (Suc (chosen pick pending)) pending)"
    using pending_split [OF ne, of pick] by simp
  then show ?thesis
    by (simp add: others_def)
qed

lemma mset_others:
  "pending \<noteq> [] \<Longrightarrow>
   mset pending = add_mset (pending ! chosen pick pending) (mset (others pick pending))"
proof -
  assume ne: "pending \<noteq> []"
  have "mset pending = mset (take (chosen pick pending) pending @ pending ! chosen pick pending
             # drop (Suc (chosen pick pending)) pending)"
    using pending_split [OF ne, of pick] by simp
  then show ?thesis
    by (simp add: others_def)
qed


declare wait_loop.simps [simp del]

lemma wait_loop_returns:
  "num = cnt + length pending \<Longrightarrow> fst (wait_loop pick cnt num pending t) \<noteq> LoopBlocked"
proof (induction pick cnt num pending t rule: wait_loop.induct)
  case (1 pick cnt num pending t)
  show ?case
  proof (cases "pending = []")
    case True
    with "1.prems" show ?thesis
      by (simp add: wait_loop.simps)
  next
    case False
    note ne = this
    with "1.prems" have neq: "cnt \<noteq> num" by simp
    show ?thesis
    proof (cases "pending ! chosen pick pending")
      case Done
      have "cnt + 1 + length (others pick pending) = num"
        using length_others [OF ne, of pick] "1.prems" by simp
      then have "fst (wait_loop pick (cnt + 1) num (others pick pending) (t @ [EvRecvDone]))
                   \<noteq> LoopBlocked"
        using "1.IH" [OF neq ne Done] by simp
      with neq ne Done show ?thesis
        by (simp add: wait_loop.simps [of pick cnt num pending t])
    next
      case (Err e)
      with neq ne show ?thesis
        by (simp add: wait_loop.simps [of pick cnt num pending t])
    qed
  qed
qed

lemma wait_loop_done_iff:
  "num = cnt + length pending \<Longrightarrow>
   fst (wait_loop pick cnt num pending t) = LoopDone \<longleftrightarrow> (\<forall>s \<in> set pending. s = Done)"
proof (induction pick cnt num pending t rule: wait_loop.induct)
  case (1 pick cnt num pending t)
  show ?case
  proof (cases "pending = []")
    case True
    with "1.prems" show ?thesis
      by (simp add: wait_loop.simps)
  next
    case False
    note ne = this
    with "1.prems" have neq: "cnt \<noteq> num" by simp
    show ?thesis
    proof (cases "pending ! chosen pick pending")
      case Done
      have "num = cnt + 1 + length (others pick pending)"
        using length_others [OF ne, of pick] "1.prems" by simp
      then have "fst (wait_loop pick (cnt + 1) num (others pick pending) (t @ [EvRecvDone]))
                   = LoopDone
           \<longleftrightarrow> (\<forall>s \<in> set (others pick pending). s = Done)"
        using "1.IH" [OF neq ne Done] by simp
      moreover have "(\<forall>s \<in> set pending. s = Done)
                     \<longleftrightarrow> (\<forall>s \<in> set (others pick pending). s = Done)"
        using set_others [OF ne, of pick] Done by simp
      ultimately show ?thesis using neq ne Done
        by (simp add: wait_loop.simps [of pick cnt num pending t])
    next
      case (Err e)
      have "Err e \<in> set pending"
        using set_others [OF ne, of pick] Err by simp
      then have "\<not> (\<forall>s \<in> set pending. s = Done)" by auto
      with neq ne Err show ?thesis
        by (simp add: wait_loop.simps [of pick cnt num pending t])
    qed
  qed
qed

lemma wait_loop_shape:
  "wait_loop pick cnt num pending t = (x, t', rest) \<Longrightarrow>
   \<exists>k. t' = t @ map recv_event (replicate k Done @ exit_recv x)
     \<and> mset pending = mset (replicate k Done @ exit_recv x) + mset rest
     \<and> (x = LoopDone \<longrightarrow> cnt + k = num)"
proof (induction pick cnt num pending t arbitrary: x t' rest rule: wait_loop.induct)
  case (1 pick cnt num pending t)
  show ?case
  proof (cases "cnt = num \<or> pending = []")
    case True
    with "1.prems" have "t' = t" "rest = pending" "exit_recv x = []" "x = LoopDone \<longrightarrow> cnt = num"
      by (auto simp: wait_loop.simps [of pick cnt num pending t] split: if_splits)
    then have "t' = t @ map recv_event (replicate 0 Done @ exit_recv x)
       \<and> mset pending = mset (replicate 0 Done @ exit_recv x) + mset rest
       \<and> (x = LoopDone \<longrightarrow> cnt + 0 = num)"
      by simp
    then show ?thesis by blast
  next
    case False
    then have neq: "cnt \<noteq> num" and ne: "pending \<noteq> []" by simp_all
    show ?thesis
    proof (cases "pending ! chosen pick pending")
      case Done
      with neq ne "1.prems"
      have "wait_loop pick (cnt + 1) num (others pick pending) (t @ [EvRecvDone]) = (x, t', rest)"
        by (simp add: wait_loop.simps [of pick cnt num pending t])
      from "1.IH" [OF neq ne Done this]
      obtain k where k: "t' = (t @ [EvRecvDone]) @ map recv_event (replicate k Done @ exit_recv x)"
        "mset (others pick pending) = mset (replicate k Done @ exit_recv x) + mset rest"
        "x = LoopDone \<longrightarrow> cnt + 1 + k = num"
        by blast
      have "t' = t @ map recv_event (replicate (Suc k) Done @ exit_recv x)"
        using k(1) by simp
      moreover have "mset pending = mset (replicate (Suc k) Done @ exit_recv x) + mset rest"
        using mset_others [OF ne, of pick] Done k(2) by simp
      moreover have "x = LoopDone \<longrightarrow> cnt + Suc k = num"
        using k(3) by simp
      ultimately show ?thesis by blast
    next
      case (Err e)
      with neq ne "1.prems"
      have "x = LoopReturn e" "t' = t @ [EvRecvErr e]" "rest = others pick pending"
        by (simp_all add: wait_loop.simps [of pick cnt num pending t])
      then have "t' = t @ map recv_event (replicate 0 Done @ exit_recv x)
         \<and> mset pending = mset (replicate 0 Done @ exit_recv x) + mset rest
         \<and> (x = LoopDone \<longrightarrow> cnt + 0 = num)"
        using mset_others [OF ne, of pick] Err by simp
      then show ?thesis by blast
    qed
  qed
qed

subsection \<open>The goroutines and the fan-out\<close>

lemma sends_append: "sends (a @ b) = sends a @ sends b"
  by (induction a rule: sends.induct) simp_all

lemma recvs_append: "recvs (a @ b) = recvs a @ recvs b"
  by (induction a rule: recvs.induct) simp_all

lemma recvs_recv_event: "recvs (map recv_event rs) = rs"
proof (induction rs)
  case Nil
  show ?case by simp
next
  case (Cons s rs)
  then show ?case by (cases s) simp_all
qed

lemma recvs_replicate: "recvs (replicate k EvRecvDone) = replicate k Done"
  by (induction k) simp_all

lemma recvs_gos: "recvs (map (\<lambda>(source, destination). EvGo source destination) fmap) = []"
  by (induction fmap) auto

lemma filter_go_gos:
  "filter is_go (map (\<lambda>(source, destination). EvGo source destination) fmap)
     = map (\<lambda>(source, destination). EvGo source destination) fmap"
  by (induction fmap) auto

lemma filter_go_recvs: "filter is_go (replicate k EvRecvDone) = []"
  by (induction k) simp_all

lemma task_sends:
  "sends (UploadDir_task w ret bucket src dst) =
     (case ReadFile w src of
        Inl err \<Rightarrow> [Err err]
      | Inr bts \<Rightarrow>
          (case Write w bucket dst bts of
             Some err \<Rightarrow> [Err err]
           | None \<Rightarrow> (case Close w bucket dst of Some err \<Rightarrow> [Err err] | None \<Rightarrow> [Done])))"
  by (simp add: UploadDir_task_def sends_append split: sum.splits option.splits)

lemma length_task_sends: "length (sends (UploadDir_task w ret bucket src dst)) = 1"
  by (simp add: task_sends split: sum.splits option.splits)

lemma length_pending:
  "length (concat (map sends
      (map (\<lambda>(source, destination). UploadDir_task w ret bucket source destination) fmap)))
     = length fmap"
  by (induction fmap) (auto simp: length_task_sends)

lemma task_writes_eq:
  "filter is_write (UploadDir_task w ret bucket src dst) =
     (case ReadFile w src of Inl err \<Rightarrow> [] | Inr bts \<Rightarrow> [EvWrite bucket dst bts])"
  by (simp add: UploadDir_task_def Let_def split: sum.splits option.splits)

lemma task_writes:
  "sends (UploadDir_task w ret bucket src dst) = [Done] \<Longrightarrow>
   \<exists>bts. ReadFile w src = Inr bts
     \<and> filter is_write (UploadDir_task w ret bucket src dst) = [EvWrite bucket dst bts]"
  by (cases "ReadFile w src") (simp_all add: task_writes_eq task_sends)

lemma UploadDir_fanout_shape:
  fixes pick w ret bucket fmap
  defines "tasks \<equiv>
    map (\<lambda>(source, destination). UploadDir_task w ret bucket source destination) fmap"
  shows "\<exists>res k rest.
     UploadDir_fanout pick w ret bucket fmap =
       \<lparr>outcome = Returned res,
        events = map (\<lambda>(source, destination). EvGo source destination) fmap
                 @ replicate k EvRecvDone
                 @ (case res of None \<Rightarrow> [EvLog ''UploadDir success'']
                    | Some err \<Rightarrow> [EvRecvErr err]),
        task_events = tasks, unreceived = rest\<rparr>
     \<and> (res = None \<longleftrightarrow> (\<forall>s \<in> set (concat (map sends tasks)). s = Done))
     \<and> (res = None \<longrightarrow> k = length fmap)
     \<and> mset (concat (map sends tasks))
         = mset (replicate k Done @ (case res of None \<Rightarrow> [] | Some err \<Rightarrow> [Err err]))
           + mset rest"
proof -
  let ?pending = "concat (map sends tasks)"
  let ?gos = "map (\<lambda>(source, destination). EvGo source destination) fmap"
  obtain x t rest where run: "wait_loop pick 0 (length fmap) ?pending ?gos = (x, t, rest)"
    by (cases "wait_loop pick 0 (length fmap) ?pending ?gos") blast
  have len: "length fmap = 0 + length ?pending"
    using length_pending [of w ret bucket fmap] by (simp add: tasks_def)
  have nb: "x \<noteq> LoopBlocked"
    using wait_loop_returns [OF len, of pick ?gos] run by simp
  have all_done: "x = LoopDone \<longleftrightarrow> (\<forall>s \<in> set ?pending. s = Done)"
    using wait_loop_done_iff [OF len, of pick ?gos] run by simp
  from wait_loop_shape [OF run] obtain k where
    k: "t = ?gos @ map recv_event (replicate k Done @ exit_recv x)"
       "mset ?pending = mset (replicate k Done @ exit_recv x) + mset rest"
       "x = LoopDone \<longrightarrow> 0 + k = length fmap"
    by blast
  show ?thesis
  proof (cases x)
    case LoopDone
    with run k all_done show ?thesis
      by (simp add: UploadDir_fanout_def tasks_def)
  next
    case (LoopReturn e)
    with run k all_done show ?thesis
      by (simp add: UploadDir_fanout_def tasks_def)
  next
    case LoopBlocked
    with nb show ?thesis by simp
  qed
qed

subsection \<open>The shapes of a run of UploadDir\<close>

lemma deferred_returns: "deferred ev (returns x t) = returns x (t @ [ev])"
  by (simp add: deferred_def returns_def)

lemma before_returns: "before t' (returns x t) = returns x (t' @ t)"
  by (simp add: before_def returns_def)

lemma deferred_Returned:
  "deferred ev \<lparr>outcome = Returned x, events = t, task_events = ts, unreceived = u\<rparr>
     = \<lparr>outcome = Returned x, events = t @ [ev], task_events = ts, unreceived = u\<rparr>"
  by (simp add: deferred_def)

lemma before_run:
  "before t' \<lparr>outcome = x, events = t, task_events = ts, unreceived = u\<rparr>
     = \<lparr>outcome = x, events = t' @ t, task_events = ts, unreceived = u\<rparr>"
  by (simp add: before_def)

lemmas run_simps = deferred_returns before_returns deferred_Returned before_run

lemma UploadDir_uploads:
  assumes "NewAdminClient w (Project gcs) (Config gcs) = None"
    and "provisioned w bucket"
    and "NewClient w (Config gcs) = None"
    and "walkRecursive w src = Inr fmap"
  shows "\<exists>res k rest.
     UploadDir pick w (Some gcs) bucket src dst ret =
       \<lparr>outcome = Returned res,
        events = [EvNewAdminClient (Project gcs), EvCreateBucket bucket, EvNewClient,
                  EvWalkRecursive src]
                 @ map (\<lambda>(source, destination). EvGo source destination) fmap
                 @ replicate k EvRecvDone
                 @ (case res of None \<Rightarrow> [EvLog ''UploadDir success'']
                    | Some err \<Rightarrow> [EvRecvErr err])
                 @ [EvClientClose, EvAdminClose],
        task_events = map (\<lambda>(source, destination). UploadDir_task w ret bucket source destination) fmap,
        unreceived = rest\<rparr>
     \<and> (res = None \<longleftrightarrow>
          (\<forall>s \<in> set (concat (map sends (map (\<lambda>(source, destination). UploadDir_task w ret bucket source destination) fmap))). s = Done))
     \<and> (res = None \<longrightarrow> k = length fmap)
     \<and> mset (concat (map sends (map (\<lambda>(source, destination). UploadDir_task w ret bucket source destination) fmap)))
         = mset (replicate k Done @ (case res of None \<Rightarrow> [] | Some err \<Rightarrow> [Err err]))
           + mset rest"
proof -
  from UploadDir_fanout_shape [of pick w ret bucket fmap]
  obtain res k rest where
    f: "UploadDir_fanout pick w ret bucket fmap =
       \<lparr>outcome = Returned res,
        events = map (\<lambda>(source, destination). EvGo source destination) fmap
                 @ replicate k EvRecvDone
                 @ (case res of None \<Rightarrow> [EvLog ''UploadDir success'']
                    | Some err \<Rightarrow> [EvRecvErr err]),
        task_events = map (\<lambda>(source, destination). UploadDir_task w ret bucket source destination) fmap,
        unreceived = rest\<rparr>"
    and g: "res = None \<longleftrightarrow>
          (\<forall>s \<in> set (concat (map sends (map (\<lambda>(source, destination). UploadDir_task w ret bucket source destination) fmap))). s = Done)"
      "res = None \<longrightarrow> k = length fmap"
      "mset (concat (map sends (map (\<lambda>(source, destination). UploadDir_task w ret bucket source destination) fmap)))
         = mset (replicate k Done @ (case res of None \<Rightarrow> [] | Some err \<Rightarrow> [Err err]))
           + mset rest"
    by blast
  have "UploadDir pick w (Some gcs) bucket src dst ret =
       \<lparr>outcome = Returned res,
        events = [EvNewAdminClient (Project gcs), EvCreateBucket bucket, EvNewClient,
                  EvWalkRecursive src]
                 @ map (\<lambda>(source, destination). EvGo source destination) fmap
                 @ replicate k EvRecvDone
                 @ (case res of None \<Rightarrow> [EvLog ''UploadDir success'']
                    | Some err \<Rightarrow> [EvRecvErr err])
                 @ [EvClientClose, EvAdminClose],
        task_events = map (\<lambda>(source, destination). UploadDir_task w ret bucket source destination) fmap,
        unreceived = rest\<rparr>"
    using assms f
    by (simp add: UploadDir_def UploadDir_client_def provisioned_def run_simps
        split: option.splits)
  with g show ?thesis by blast
qed

lemma UploadDir_early:
  assumes "\<not> (\<exists>gcs fmap. g = Some gcs \<and> NewAdminClient w (Project gcs) (Config gcs) = None
      \<and> provisioned w bucket \<and> NewClient w (Config gcs) = None \<and> walkRecursive w src = Inr fmap)"
  shows "filter is_go (events (UploadDir pick w g bucket src dst ret)) = []
       \<and> recvs (events (UploadDir pick w g bucket src dst ret)) = []
       \<and> task_events (UploadDir pick w g bucket src dst ret) = []
       \<and> unreceived (UploadDir pick w g bucket src dst ret) = []"
proof (cases g)
  case None
  then show ?thesis
    by (simp add: UploadDir_def returns_def)
next
  case (Some gcs)
  show ?thesis
  proof (cases "NewAdminClient w (Project gcs) (Config gcs)")
    case (Some err)
    with \<open>g = Some gcs\<close> show ?thesis
      by (simp add: UploadDir_def returns_def)
  next
    case None
    note admin = this
    show ?thesis
    proof (cases "provisioned w bucket")
      case False
      with \<open>g = Some gcs\<close> admin show ?thesis
        by (simp add: UploadDir_def provisioned_def returns_def split: option.splits)
    next
      case True
      note prov = this
      show ?thesis
      proof (cases "NewClient w (Config gcs)")
        case (Some err)
        with \<open>g = Some gcs\<close> admin prov show ?thesis
          by (simp add: UploadDir_def UploadDir_client_def provisioned_def run_simps returns_def
              split: option.splits)
      next
        case None
        with assms \<open>g = Some gcs\<close> admin prov obtain err where "walkRecursive w src = Inl err"
          by (cases "walkRecursive w src") auto
        with \<open>g = Some gcs\<close> admin prov None show ?thesis
          by (simp add: UploadDir_def UploadDir_client_def provisioned_def run_simps returns_def
              split: option.splits)
      qed
    qed
  qed
qed

lemma UploadDir_tasks:
  "t \<in> set (task_events (UploadDir pick w g bucket src dst ret)) \<Longrightarrow>
   \<exists>source destination. t = UploadDir_task w ret bucket source destination"
proof -
  let ?r = "UploadDir pick w g bucket src dst ret"
  assume t: "t \<in> set (task_events ?r)"
  then have "task_events ?r \<noteq> []" by auto
  with UploadDir_early [of g w bucket src pick dst ret]
  obtain gcs fmap where g: "g = Some gcs"
    and hyps: "NewAdminClient w (Project gcs) (Config gcs) = None" "provisioned w bucket"
      "NewClient w (Config gcs) = None" "walkRecursive w src = Inr fmap"
    by blast
  from UploadDir_uploads [OF hyps, of pick dst ret] g
  have "task_events ?r
          = map (\<lambda>(source, destination). UploadDir_task w ret bucket source destination) fmap"
    by auto
  with t show ?thesis by auto
qed

lemma task_last:
  "sends (butlast (UploadDir_task w ret bucket src dst)) = []"
  by (simp add: UploadDir_task_def Let_def sends_append butlast_append
      split: sum.splits option.splits)

subsection \<open>Provisioning\<close>

lemma UploadFile_proceeds:
  "NewAdminClient w (Project gcs) (Config gcs) = None \<Longrightarrow> provisioned w bucket \<Longrightarrow>
   \<exists>tl. snd (UploadFile w (Some gcs) bucket src dst ret)
           = EvNewAdminClient (Project gcs) # EvCreateBucket bucket # EvNewClient # tl"
  by (auto simp: UploadFile_def UploadFile_client_def provisioned_def
      split: option.splits prod.splits)

lemma UploadDir_proceeds:
  assumes "NewAdminClient w (Project gcs) (Config gcs) = None" and "provisioned w bucket"
  shows "\<exists>tl. events (UploadDir pick w (Some gcs) bucket src dst ret)
           = EvNewAdminClient (Project gcs) # EvCreateBucket bucket # EvNewClient # tl"
proof (cases "NewClient w (Config gcs)")
  case (Some e)
  with assms show ?thesis
    by (simp add: UploadDir_def UploadDir_client_def provisioned_def run_simps returns_def
        split: option.splits)
next
  case None
  note client = this
  show ?thesis
  proof (cases "walkRecursive w src")
    case (Inl e)
    with assms client show ?thesis
      by (simp add: UploadDir_def UploadDir_client_def provisioned_def run_simps returns_def
          split: option.splits)
  next
    case (Inr fmap)
    from UploadDir_uploads [OF assms client Inr, of pick dst ret] show ?thesis
      by auto
  qed
qed

lemma UploadFile_object_world:
  "UploadFile_object (w\<lparr>CreateBucket := f\<rparr>) ret bucket src dst
     = UploadFile_object w ret bucket src dst"
  by (simp add: UploadFile_object_def Let_def cong: sum.case_cong option.case_cong)

lemma UploadFile_world:
  "UploadFile_client (w\<lparr>CreateBucket := f\<rparr>) gcs ret bucket src dst
     = UploadFile_client w gcs ret bucket src dst"
  by (simp add: UploadFile_client_def UploadFile_object_world split: option.splits)

lemma UploadDir_task_world:
  "UploadDir_task (w\<lparr>CreateBucket := f\<rparr>) ret bucket src dst = UploadDir_task w ret bucket src dst"
  by (simp add: UploadDir_task_def Let_def cong: sum.case_cong option.case_cong)

lemma UploadDir_fanout_world:
  "UploadDir_fanout pick (w\<lparr>CreateBucket := f\<rparr>) ret bucket fmap
     = UploadDir_fanout pick w ret bucket fmap"
  by (simp add: UploadDir_fanout_def UploadDir_task_world)

lemma UploadDir_world:
  "UploadDir_client pick (w\<lparr>CreateBucket := f\<rparr>) gcs ret bucket src
     = UploadDir_client pick w gcs ret bucket src"
  by (simp add: UploadDir_client_def UploadDir_fanout_world split: option.splits sum.splits)

subsection \<open>The trace of UploadFile\<close>

lemma UploadFile_object_content_type:
  "filter is_set_content_type (snd (UploadFile_object w ret bucket src dst))
     = (if ContentType ret \<noteq> [] then [EvSetContentType bucket dst (ContentType ret)] else [])
   \<and> filter is_set_content_type
        (dropWhile (\<lambda>ev. \<not> is_write ev) (snd (UploadFile_object w ret bucket src dst))) = []
   \<and> EvNewWriter bucket dst \<in> set (snd (UploadFile_object w ret bucket src dst))"
  by (simp add: UploadFile_object_def Let_def split: sum.splits option.splits)

lemma UploadFile_trace:
  "snd (UploadFile w g bucket src dst ret) =
     (case g of
        None \<Rightarrow> []
      | Some gcs \<Rightarrow>
          (case NewAdminClient w (Project gcs) (Config gcs) of
             Some err \<Rightarrow> [EvNewAdminClient (Project gcs)]
           | None \<Rightarrow>
               if \<not> provisioned w bucket
               then [EvNewAdminClient (Project gcs), EvCreateBucket bucket, EvAdminClose]
               else (case NewClient w (Config gcs) of
                       Some err \<Rightarrow> [EvNewAdminClient (Project gcs), EvCreateBucket bucket,
                                    EvNewClient, EvAdminClose]
                     | None \<Rightarrow> [EvNewAdminClient (Project gcs), EvCreateBucket bucket,
                                EvNewClient]
                               @ snd (UploadFile_object w ret bucket src dst)
                               @ [EvClientClose, EvAdminClose])))"
  by (simp add: UploadFile_def UploadFile_client_def provisioned_def
      split: option.splits prod.splits)

lemma after_write_closes:
  "filter is_set_content_type (dropWhile (\<lambda>ev. \<not> is_write ev) t) = [] \<Longrightarrow>
   filter is_set_content_type
     (dropWhile (\<lambda>ev. \<not> is_write ev) (t @ [EvClientClose, EvAdminClose])) = []"
proof (cases "\<exists>ev \<in> set t. is_write ev")
  case True
  assume "filter is_set_content_type (dropWhile (\<lambda>ev. \<not> is_write ev) t) = []"
  moreover from True have "dropWhile (\<lambda>ev. \<not> is_write ev) (t @ [EvClientClose, EvAdminClose])
      = dropWhile (\<lambda>ev. \<not> is_write ev) t @ [EvClientClose, EvAdminClose]"
    by auto
  ultimately show ?thesis by simp
next
  case False
  then have "dropWhile (\<lambda>ev. \<not> is_write ev) (t @ [EvClientClose, EvAdminClose]) = []"
    by auto
  then show ?thesis by simp
qed

lemma after_write_subset:
  "filter is_set_content_type t = [] \<Longrightarrow>
   filter is_set_content_type (dropWhile (\<lambda>ev. \<not> is_write ev) t) = []"
  by (auto simp: filter_empty_conv dest: set_dropWhileD)

subsection \<open>Where the errors come from\<close>

lemma answer_call: "answer w gcs ev = Some e \<Longrightarrow> is_call ev"
  by (cases ev) simp_all

lemma UploadFile_object_raised:
  "\<forall>ev \<in> set (snd (UploadFile_object w ret bucket src dst)).
     \<forall>e. answer w gcs ev = Some e \<longrightarrow> fst (UploadFile_object w ret bucket src dst) = Some e"
  by (simp add: UploadFile_object_def Let_def split: sum.splits option.splits)

lemma UploadFile_object_origin:
  "fst (UploadFile_object w ret bucket src dst) = Some e \<Longrightarrow>
   \<exists>ev \<in> set (snd (UploadFile_object w ret bucket src dst)). answer w gcs ev = Some e"
  by (auto simp: UploadFile_object_def Let_def split: sum.splits option.splits)

lemma UploadFile_object_calls:
  "distinct (filter is_call (snd (UploadFile_object w ret bucket src dst)))
   \<and> (\<forall>ev \<in> set (snd (UploadFile_object w ret bucket src dst)).
        ev \<noteq> EvNewAdminClient p \<and> ev \<noteq> EvCreateBucket b \<and> ev \<noteq> EvNewClient
        \<and> ev \<noteq> EvClientClose \<and> ev \<noteq> EvAdminClose)"
  by (simp add: UploadFile_object_def Let_def split: sum.splits option.splits)

lemma UploadFile_result:
  "fst (UploadFile w (Some gcs) bucket src dst ret) =
     (case NewAdminClient w (Project gcs) (Config gcs) of
        Some err \<Rightarrow> Some err
      | None \<Rightarrow>
          if \<not> provisioned w bucket then CreateBucket w bucket
          else (case NewClient w (Config gcs) of
                  Some err \<Rightarrow> Some err
                | None \<Rightarrow> fst (UploadFile_object w ret bucket src dst)))"
  by (simp add: UploadFile_def UploadFile_client_def provisioned_def
      split: option.splits prod.splits)

lemma UploadFile_raised:
  "\<forall>ev \<in> set (snd (UploadFile w (Some gcs) bucket src dst ret)).
     \<forall>e. answer w gcs ev = Some e \<longrightarrow> fst (UploadFile w (Some gcs) bucket src dst ret) = Some e"
  using UploadFile_object_raised [of w ret bucket src dst gcs]
  by (auto simp: UploadFile_trace UploadFile_result provisioned_def split: option.splits)

lemma UploadFile_origin:
  "fst (UploadFile w (Some gcs) bucket src dst ret) = Some e \<Longrightarrow>
   \<exists>ev \<in> set (snd (UploadFile w (Some gcs) bucket src dst ret)). answer w gcs ev = Some e"
  using UploadFile_object_origin [of w ret bucket src dst e gcs]
  by (auto simp: UploadFile_trace UploadFile_result provisioned_def split: option.splits if_splits)

lemma UploadFile_calls:
  "distinct (filter is_call (snd (UploadFile w g bucket src dst ret)))"
  using UploadFile_object_calls [of w ret bucket src dst]
  by (auto simp: UploadFile_trace split: option.splits)


lemma task_raised:
  "\<forall>ev \<in> set (UploadDir_task w ret bucket src dst).
     \<forall>e. answer w gcs ev = Some e \<longrightarrow> sends (UploadDir_task w ret bucket src dst) = [Err e]"
  by (simp add: UploadDir_task_def Let_def split: sum.splits option.splits)

lemma task_origin:
  assumes "sends (UploadDir_task w ret bucket src dst) = [Err e]"
  shows "\<exists>ev \<in> set (UploadDir_task w ret bucket src dst). answer w gcs ev = Some e"
proof -
  from assms have
    "(case ReadFile w src of
        Inl err \<Rightarrow> [Err err]
      | Inr bts \<Rightarrow>
          (case Write w bucket dst bts of
             Some err \<Rightarrow> [Err err]
           | None \<Rightarrow> (case Close w bucket dst of Some err \<Rightarrow> [Err err] | None \<Rightarrow> [Done])))
     = [Err e]"
    by (simp add: task_sends)
  then show ?thesis
    by (auto simp: UploadDir_task_def Let_def split: sum.splits option.splits)
qed

lemma task_calls: "distinct (filter is_call (UploadDir_task w ret bucket src dst))"
  by (simp add: UploadDir_task_def Let_def split: sum.splits option.splits)

lemma calls_gos:
  "filter is_call (map (\<lambda>(source, destination). EvGo source destination) fmap) = []"
  by (induction fmap) auto

lemma calls_recvs: "filter is_call (replicate k EvRecvDone) = []"
  by (induction k) simp_all

lemma UploadDir_setup:
  assumes "\<not> (NewAdminClient w (Project gcs) (Config gcs) = None
      \<and> provisioned w bucket \<and> NewClient w (Config gcs) = None
      \<and> (\<exists>fmap. walkRecursive w src = Inr fmap))"
  shows "\<exists>e. outcome (UploadDir pick w (Some gcs) bucket src dst ret) = Returned (Some e)
           \<and> distinct (events (UploadDir pick w (Some gcs) bucket src dst ret))
           \<and> (\<forall>ev \<in> set (events (UploadDir pick w (Some gcs) bucket src dst ret)).
                \<forall>e'. answer w gcs ev = Some e' \<longrightarrow> e' = e)
           \<and> (\<exists>ev \<in> set (events (UploadDir pick w (Some gcs) bucket src dst ret)).
                answer w gcs ev = Some e)"
proof (cases "NewAdminClient w (Project gcs) (Config gcs)")
  case (Some err)
  then have "UploadDir pick w (Some gcs) bucket src dst ret
               = returns (Some err) [EvNewAdminClient (Project gcs)]"
    by (simp add: UploadDir_def)
  with Some show ?thesis by (simp add: returns_def)
next
  case None
  note admin = this
  show ?thesis
  proof (cases "provisioned w bucket")
    case False
    then obtain err where cb: "CreateBucket w bucket = Some err" "\<not> already_owned err"
      by (auto simp: provisioned_def split: option.splits)
    with admin have "UploadDir pick w (Some gcs) bucket src dst ret
               = returns (Some err) [EvNewAdminClient (Project gcs), EvCreateBucket bucket,
                                     EvAdminClose]"
      by (simp add: UploadDir_def)
    with admin cb show ?thesis by (simp add: returns_def)
  next
    case True
    note prov = this
    then have cb: "answer w gcs (EvCreateBucket bucket) = None"
      by (auto simp: provisioned_def split: option.splits)
    show ?thesis
    proof (cases "NewClient w (Config gcs)")
      case (Some err)
      with admin prov have "UploadDir pick w (Some gcs) bucket src dst ret
               = returns (Some err) [EvNewAdminClient (Project gcs), EvCreateBucket bucket,
                                     EvNewClient, EvAdminClose]"
        by (simp add: UploadDir_def UploadDir_client_def provisioned_def run_simps
            split: option.splits)
      with admin cb Some show ?thesis
        by (simp add: returns_def del: answer.simps(2))
    next
      case None
      with assms admin prov obtain err where walk: "walkRecursive w src = Inl err"
        by (cases "walkRecursive w src") auto
      with admin prov None have "UploadDir pick w (Some gcs) bucket src dst ret
               = returns (Some err) [EvNewAdminClient (Project gcs), EvCreateBucket bucket,
                                     EvNewClient, EvWalkRecursive src, EvClientClose,
                                     EvAdminClose]"
        by (simp add: UploadDir_def UploadDir_client_def provisioned_def run_simps
            split: option.splits)
      with admin cb None walk show ?thesis
        by (simp add: returns_def del: answer.simps(2))
    qed
  qed
qed

lemma UploadDir_errors:
  "(\<forall>ev \<in> set (events (UploadDir pick w (Some gcs) bucket src dst ret)).
      \<forall>e. answer w gcs ev = Some e
        \<longrightarrow> outcome (UploadDir pick w (Some gcs) bucket src dst ret) = Returned (Some e))
   \<and> (\<forall>e. outcome (UploadDir pick w (Some gcs) bucket src dst ret) = Returned (Some e) \<longrightarrow>
         (\<exists>ev \<in> set (events (UploadDir pick w (Some gcs) bucket src dst ret)).
            answer w gcs ev = Some e)
       \<or> (EvRecvErr e \<in> set (events (UploadDir pick w (Some gcs) bucket src dst ret))
           \<and> Err e \<in> set (concat (map sends
                 (task_events (UploadDir pick w (Some gcs) bucket src dst ret))))))
   \<and> distinct (filter is_call (events (UploadDir pick w (Some gcs) bucket src dst ret)))"
proof (cases "NewAdminClient w (Project gcs) (Config gcs) = None
      \<and> provisioned w bucket \<and> NewClient w (Config gcs) = None
      \<and> (\<exists>fmap. walkRecursive w src = Inr fmap)")
  case False
  from UploadDir_setup [OF False, of pick dst ret]
  obtain e where e: "outcome (UploadDir pick w (Some gcs) bucket src dst ret) = Returned (Some e)"
    "distinct (events (UploadDir pick w (Some gcs) bucket src dst ret))"
    "\<forall>ev \<in> set (events (UploadDir pick w (Some gcs) bucket src dst ret)).
        \<forall>e'. answer w gcs ev = Some e' \<longrightarrow> e' = e"
    "\<exists>ev \<in> set (events (UploadDir pick w (Some gcs) bucket src dst ret)).
        answer w gcs ev = Some e"
    by blast
  from e(2) have "distinct (filter is_call (events (UploadDir pick w (Some gcs) bucket src dst ret)))"
    by (rule distinct_filter)
  with e(1,3,4) show ?thesis
    by auto
next
  case True
  then obtain fmap where hyps: "NewAdminClient w (Project gcs) (Config gcs) = None"
    "provisioned w bucket" "NewClient w (Config gcs) = None" "walkRecursive w src = Inr fmap"
    by blast
  let ?r = "UploadDir pick w (Some gcs) bucket src dst ret"
  let ?tasks = "map (\<lambda>(source, destination). UploadDir_task w ret bucket source destination) fmap"
  let ?gos = "map (\<lambda>(source, destination). EvGo source destination) fmap"
  from UploadDir_uploads [OF hyps, of pick dst ret]
  obtain res k rest where
    run: "?r = \<lparr>outcome = Returned res,
        events = [EvNewAdminClient (Project gcs), EvCreateBucket bucket, EvNewClient,
                  EvWalkRecursive src] @ ?gos @ replicate k EvRecvDone
                 @ (case res of None \<Rightarrow> [EvLog ''UploadDir success'']
                    | Some err \<Rightarrow> [EvRecvErr err])
                 @ [EvClientClose, EvAdminClose],
        task_events = ?tasks, unreceived = rest\<rparr>"
    and cons: "mset (concat (map sends ?tasks))
         = mset (replicate k Done @ (case res of None \<Rightarrow> [] | Some err \<Rightarrow> [Err err]))
           + mset rest"
    by blast
  have calls: "filter is_call (events ?r)
                 = [EvNewAdminClient (Project gcs), EvCreateBucket bucket, EvNewClient,
                    EvWalkRecursive src, EvClientClose, EvAdminClose]"
    unfolding run by (cases res) (simp_all add: calls_gos calls_recvs)
  have quiet: "answer w gcs ev = None" if "ev \<in> set (events ?r)" for ev
  proof (cases "is_call ev")
    case True
    with that have "ev \<in> set (filter is_call (events ?r))" by simp
    moreover have "answer w gcs (EvCreateBucket bucket) = None"
      using hyps(2) by (auto simp: provisioned_def split: option.splits)
    ultimately show ?thesis
      unfolding calls using hyps(1,3,4) by (auto simp del: answer.simps(2))
  next
    case False
    with answer_call [of w gcs ev] show ?thesis
      by (cases "answer w gcs ev") auto
  qed
  have a: "\<forall>ev \<in> set (events ?r). \<forall>e. answer w gcs ev = Some e \<longrightarrow> outcome ?r = Returned (Some e)"
    using quiet by simp
  have b: "EvRecvErr e \<in> set (events ?r) \<and> Err e \<in> set (concat (map sends (task_events ?r)))"
    if "outcome ?r = Returned (Some e)" for e
  proof -
    from that run have res: "res = Some e" by simp
    with run have "EvRecvErr e \<in> set (events ?r)" by simp
    moreover from cons res have "Err e \<in># mset (concat (map sends ?tasks))"
      by simp
    then have "Err e \<in> set (concat (map sends (task_events ?r)))"
      using run by (simp del: set_concat)
    ultimately show ?thesis by simp
  qed
  have c: "distinct (filter is_call (events ?r))"
    unfolding calls by simp
  from a b c show ?thesis by blast
qed

text \<open>The equations that evaluate a run on a concrete input.\<close>

lemmas eval_defs = UploadDir_def UploadDir_client_def UploadDir_fanout_def UploadDir_task_def
  UploadFile_def UploadFile_client_def UploadFile_object_def
  run_simps returns_def wait_loop.simps chosen_def others_def
  ok_world_def unreadable_world_def locked_world_def owned_world_def forbidden_world_def
  gcs0_def tree_def
  first_ready_def last_ready_def

subsection \<open>The statements of the specification\<close>

text \<open>
  C1.  First failure wins.  Whenever the calling goroutine of \<open>UploadDir\<close> receives an
  error \<open>e\<close> from the error channel, the method returns \<open>e\<close>; the receive is the last
  one of the run (before it there are only receives of success tokens, after it only the
  two deferred closes), and the sends of the other goroutines are left unreceived: the
  received and the unreceived signals together are the sends of the goroutines, one each.
\<close>

theorem first_failure_wins:
  "EvRecvErr e \<in> set (events (UploadDir pick w g bucket src dst ret)) \<Longrightarrow>
     outcome (UploadDir pick w g bucket src dst ret) = Returned (Some e)
   \<and> (\<exists>pre k. events (UploadDir pick w g bucket src dst ret)
                 = pre @ replicate k EvRecvDone @ [EvRecvErr e, EvClientClose, EvAdminClose]
             \<and> recvs pre = [])
   \<and> mset (recvs (events (UploadDir pick w g bucket src dst ret)))
       + mset (unreceived (UploadDir pick w g bucket src dst ret))
       = mset (concat (map sends (task_events (UploadDir pick w g bucket src dst ret))))
   \<and> length (recvs (events (UploadDir pick w g bucket src dst ret)))
       + length (unreceived (UploadDir pick w g bucket src dst ret))
       = length (task_events (UploadDir pick w g bucket src dst ret))"
proof -
  let ?r = "UploadDir pick w g bucket src dst ret"
  assume recv: "EvRecvErr e \<in> set (events ?r)"
  have "recvs (events ?r) \<noteq> []"
  proof
    assume "recvs (events ?r) = []"
    moreover from recv obtain a b where "events ?r = a @ EvRecvErr e # b"
      by (auto simp: in_set_conv_decomp)
    ultimately show False by (simp add: recvs_append)
  qed
  with UploadDir_early [of g w bucket src pick dst ret]
  obtain gcs fmap where g: "g = Some gcs"
    and hyps: "NewAdminClient w (Project gcs) (Config gcs) = None" "provisioned w bucket"
      "NewClient w (Config gcs) = None" "walkRecursive w src = Inr fmap"
    by blast
  let ?tasks = "map (\<lambda>(source, destination). UploadDir_task w ret bucket source destination) fmap"
  let ?gos = "map (\<lambda>(source, destination). EvGo source destination) fmap"
  from UploadDir_uploads [OF hyps, of pick dst ret] g
  obtain res k rest where
    run: "?r = \<lparr>outcome = Returned res,
        events = [EvNewAdminClient (Project gcs), EvCreateBucket bucket, EvNewClient,
                  EvWalkRecursive src] @ ?gos @ replicate k EvRecvDone
                 @ (case res of None \<Rightarrow> [EvLog ''UploadDir success'']
                    | Some err \<Rightarrow> [EvRecvErr err])
                 @ [EvClientClose, EvAdminClose],
        task_events = ?tasks, unreceived = rest\<rparr>"
    and cons: "mset (concat (map sends ?tasks))
         = mset (replicate k Done @ (case res of None \<Rightarrow> [] | Some err \<Rightarrow> [Err err]))
           + mset rest"
    by blast
  have res: "res = Some e"
  proof (cases res)
    case None
    with run recv show ?thesis by auto
  next
    case (Some e')
    with run recv show ?thesis by auto
  qed
  let ?pre = "[EvNewAdminClient (Project gcs), EvCreateBucket bucket, EvNewClient,
                  EvWalkRecursive src] @ ?gos"
  have ev: "events ?r = ?pre @ replicate k EvRecvDone @ [EvRecvErr e, EvClientClose, EvAdminClose]"
    using run res by simp
  have pre: "recvs ?pre = []"
    by (simp add: recvs_gos)
  have rc: "recvs (events ?r) = replicate k Done @ [Err e]"
    unfolding ev by (simp add: recvs_append recvs_gos recvs_replicate)
  have c1: "outcome ?r = Returned (Some e)"
    using run res by simp
  have c2: "\<exists>pre k. events ?r = pre @ replicate k EvRecvDone @ [EvRecvErr e, EvClientClose, EvAdminClose]
             \<and> recvs pre = []"
    using ev pre by blast
  have c3: "mset (recvs (events ?r)) + mset (unreceived ?r)
             = mset (concat (map sends (task_events ?r)))"
    using cons res run rc by simp
  have "length (recvs (events ?r)) + length (unreceived ?r)
          = size (mset (concat (map sends (task_events ?r))))"
    using c3 by (metis size_mset size_union)
  also have "\<dots> = length (task_events ?r)"
    using run length_pending [of w ret bucket fmap] by simp
  finally have c4: "length (recvs (events ?r)) + length (unreceived ?r) = length (task_events ?r)" .
  from c1 c2 c3 c4 show ?thesis by blast
qed

theorem first_failure_wins_witness:
  "EvRecvErr denied
     \<in> set (events (UploadDir last_ready unreadable_world (Some gcs0) ''bkt'' ''/root'' []
                      \<lparr>ContentType = []\<rparr>))
   \<and> outcome (UploadDir last_ready unreadable_world (Some gcs0) ''bkt'' ''/root'' []
                \<lparr>ContentType = []\<rparr>) = Returned (Some denied)
   \<and> unreceived (UploadDir last_ready unreadable_world (Some gcs0) ''bkt'' ''/root'' []
                \<lparr>ContentType = []\<rparr>) = [Done]"
proof -
  let ?r = "UploadDir last_ready unreadable_world (Some gcs0) ''bkt'' ''/root'' []
              \<lparr>ContentType = []\<rparr>"
  have h: "EvRecvErr denied \<in> set (events ?r)"
    by (simp add: eval_defs)
  from first_failure_wins [OF h] have c: "outcome ?r = Returned (Some denied)"
    by blast
  have u: "unreceived ?r = [Done]"
    by (simp add: eval_defs)
  from h c u show ?thesis by blast
qed

text \<open>
  C2.  All or nothing.  When \<open>UploadDir\<close> gets as far as the walk and the walk returns
  the map \<open>fmap\<close>, the method starts one goroutine per entry of the map, in the order of
  the iteration, and nothing else; it always returns; it returns \<open>nil\<close> if and only if
  every goroutine sends the success token; and when it returns \<open>nil\<close> it has received as
  many tokens as the map has entries, no send is left, and every goroutine has written
  once, the content of its source file to the object named by its destination.
\<close>

theorem all_or_nothing:
  assumes "NewAdminClient w (Project gcs) (Config gcs) = None"
    and "provisioned w bucket"
    and "NewClient w (Config gcs) = None"
    and "walkRecursive w src = Inr fmap"
  shows "task_events (UploadDir pick w (Some gcs) bucket src dst ret)
           = map (\<lambda>(source, destination). UploadDir_task w ret bucket source destination) fmap
       \<and> filter is_go (events (UploadDir pick w (Some gcs) bucket src dst ret))
           = map (\<lambda>(source, destination). EvGo source destination) fmap
       \<and> outcome (UploadDir pick w (Some gcs) bucket src dst ret) \<noteq> Blocked
       \<and> (outcome (UploadDir pick w (Some gcs) bucket src dst ret) = Returned None
            \<longleftrightarrow> (\<forall>(source, destination) \<in> set fmap.
                   sends (UploadDir_task w ret bucket source destination) = [Done]))
       \<and> (outcome (UploadDir pick w (Some gcs) bucket src dst ret) = Returned None
            \<longrightarrow> recvs (events (UploadDir pick w (Some gcs) bucket src dst ret))
                  = replicate (length fmap) Done
              \<and> unreceived (UploadDir pick w (Some gcs) bucket src dst ret) = []
              \<and> (\<forall>(source, destination) \<in> set fmap.
                   \<exists>bts. ReadFile w source = Inr bts
                     \<and> filter is_write (UploadDir_task w ret bucket source destination)
                         = [EvWrite bucket destination bts]))"
proof -
  let ?r = "UploadDir pick w (Some gcs) bucket src dst ret"
  let ?tasks = "map (\<lambda>(source, destination). UploadDir_task w ret bucket source destination) fmap"
  let ?gos = "map (\<lambda>(source, destination). EvGo source destination) fmap"
  from UploadDir_uploads [OF assms, of pick dst ret]
  obtain res k rest where
    run: "?r = \<lparr>outcome = Returned res,
        events = [EvNewAdminClient (Project gcs), EvCreateBucket bucket, EvNewClient,
                  EvWalkRecursive src] @ ?gos @ replicate k EvRecvDone
                 @ (case res of None \<Rightarrow> [EvLog ''UploadDir success'']
                    | Some err \<Rightarrow> [EvRecvErr err])
                 @ [EvClientClose, EvAdminClose],
        task_events = ?tasks, unreceived = rest\<rparr>"
    and ok: "res = None \<longleftrightarrow> (\<forall>s \<in> set (concat (map sends ?tasks)). s = Done)"
    and cnt: "res = None \<longrightarrow> k = length fmap"
    and cons: "mset (concat (map sends ?tasks))
         = mset (replicate k Done @ (case res of None \<Rightarrow> [] | Some err \<Rightarrow> [Err err]))
           + mset rest"
    by blast
  have c1: "task_events ?r = ?tasks"
    using run by simp
  have c2: "filter is_go (events ?r) = ?gos"
    unfolding run by (cases res) (simp_all add: filter_go_gos filter_go_recvs)
  have c3: "outcome ?r \<noteq> Blocked"
    using run by simp
  have one: "(\<forall>s \<in> set (sends (UploadDir_task w ret bucket a b)). s = Done)
             \<longleftrightarrow> sends (UploadDir_task w ret bucket a b) = [Done]" for a b
    by (simp add: task_sends split: sum.splits option.splits)
  have "(\<forall>s \<in> set (concat (map sends ?tasks)). s = Done)
        \<longleftrightarrow> (\<forall>(source, destination) \<in> set fmap.
               \<forall>s \<in> set (sends (UploadDir_task w ret bucket source destination)). s = Done)"
    by auto
  also have "\<dots> \<longleftrightarrow> (\<forall>(source, destination) \<in> set fmap.
               sends (UploadDir_task w ret bucket source destination) = [Done])"
    using one by simp
  finally have c4: "outcome ?r = Returned None
            \<longleftrightarrow> (\<forall>(source, destination) \<in> set fmap.
                   sends (UploadDir_task w ret bucket source destination) = [Done])"
    using run ok by simp
  have c5: "recvs (events ?r) = replicate (length fmap) Done
              \<and> unreceived ?r = []
              \<and> (\<forall>(source, destination) \<in> set fmap.
                   \<exists>bts. ReadFile w source = Inr bts
                     \<and> filter is_write (UploadDir_task w ret bucket source destination)
                         = [EvWrite bucket destination bts])"
    if suc: "outcome ?r = Returned None"
  proof -
    from suc run have res: "res = None" by simp
    with cnt have k: "k = length fmap" by simp
    have r1: "recvs (events ?r) = replicate (length fmap) Done"
      unfolding run using res k by (simp add: recvs_append recvs_gos recvs_replicate)
    have "size (mset (concat (map sends ?tasks))) = k + length rest"
      using cons res by (metis append_Nil2 length_replicate option.simps(4) size_mset size_union)
    then have "length rest = 0"
      using length_pending [of w ret bucket fmap] k by simp
    then have r2: "unreceived ?r = []"
      using run by simp
    have r3: "\<forall>(source, destination) \<in> set fmap.
                   \<exists>bts. ReadFile w source = Inr bts
                     \<and> filter is_write (UploadDir_task w ret bucket source destination)
                         = [EvWrite bucket destination bts]"
      using c4 suc task_writes by fastforce
    from r1 r2 r3 show ?thesis by blast
  qed
  from c1 c2 c3 c4 c5 show ?thesis by blast
qed


theorem all_or_nothing_witness:
  "NewAdminClient (ok_world tree) (Project gcs0) (Config gcs0) = None
   \<and> provisioned (ok_world tree) ''bkt''
   \<and> NewClient (ok_world tree) (Config gcs0) = None
   \<and> walkRecursive (ok_world tree) ''/root'' = Inr tree
   \<and> filter is_go (events (UploadDir first_ready (ok_world tree) (Some gcs0) ''bkt'' ''/root'' []
                              \<lparr>ContentType = []\<rparr>))
       = [EvGo ''/root/a.txt'' ''a.txt'', EvGo ''/root/sub/b.txt'' ''sub/b.txt'']
   \<and> outcome (UploadDir first_ready (ok_world tree) (Some gcs0) ''bkt'' ''/root'' []
                \<lparr>ContentType = []\<rparr>) = Returned None
   \<and> recvs (events (UploadDir first_ready (ok_world tree) (Some gcs0) ''bkt'' ''/root'' []
                       \<lparr>ContentType = []\<rparr>)) = [Done, Done]"
proof -
  let ?r = "UploadDir first_ready (ok_world tree) (Some gcs0) ''bkt'' ''/root'' []
              \<lparr>ContentType = []\<rparr>"
  have h1: "NewAdminClient (ok_world tree) (Project gcs0) (Config gcs0) = None"
    by (simp add: ok_world_def)
  have h2: "provisioned (ok_world tree) ''bkt''"
    by (simp add: provisioned_def ok_world_def)
  have h3: "NewClient (ok_world tree) (Config gcs0) = None"
    by (simp add: ok_world_def)
  have h4: "walkRecursive (ok_world tree) ''/root'' = Inr tree"
    by (simp add: ok_world_def)
  have o: "outcome ?r = Returned None"
    by (simp add: eval_defs)
  from all_or_nothing [OF h1 h2 h3 h4, of first_ready "[]" "\<lparr>ContentType = []\<rparr>"]
  have "filter is_go (events ?r) = map (\<lambda>(source, destination). EvGo source destination) tree"
    and "outcome ?r = Returned None \<longrightarrow> recvs (events ?r) = replicate (length tree) Done"
    by blast+
  with o have "filter is_go (events ?r)
                 = [EvGo ''/root/a.txt'' ''a.txt'', EvGo ''/root/sub/b.txt'' ''sub/b.txt'']"
    and "recvs (events ?r) = [Done, Done]"
    by (simp_all add: tree_def)
  with h1 h2 h3 h4 o show ?thesis by blast
qed

text \<open>
  C3.  Empty batch.  When the walk returns an empty map, \<open>UploadDir\<close> returns \<open>nil\<close>; its
  trace has no goroutine, no call of a writer and no receive: after the walk come the
  success log and the two deferred closes.  The loop with \<open>cnt = num = 0\<close> leaves at its
  test, whatever is pending, without a \<open>select\<close>.
\<close>

theorem empty_batch:
  assumes "NewAdminClient w (Project gcs) (Config gcs) = None"
    and "provisioned w bucket"
    and "NewClient w (Config gcs) = None"
    and "walkRecursive w src = Inr []"
  shows "UploadDir pick w (Some gcs) bucket src dst ret =
           \<lparr>outcome = Returned None,
            events = [EvNewAdminClient (Project gcs), EvCreateBucket bucket, EvNewClient,
                      EvWalkRecursive src, EvLog ''UploadDir success'', EvClientClose,
                      EvAdminClose],
            task_events = [], unreceived = []\<rparr>
       \<and> wait_loop pick 0 0 pending t = (LoopDone, t, pending)"
  using assms
  by (simp add: UploadDir_def UploadDir_client_def UploadDir_fanout_def provisioned_def
      run_simps wait_loop.simps split: option.splits)

theorem empty_batch_witness:
  "NewAdminClient (ok_world []) (Project gcs0) (Config gcs0) = None
   \<and> provisioned (ok_world []) ''bkt''
   \<and> NewClient (ok_world []) (Config gcs0) = None
   \<and> walkRecursive (ok_world []) ''/empty'' = Inr []
   \<and> UploadDir first_ready (ok_world []) (Some gcs0) ''bkt'' ''/empty'' [] \<lparr>ContentType = []\<rparr> =
           \<lparr>outcome = Returned None,
            events = [EvNewAdminClient ''proj'', EvCreateBucket ''bkt'', EvNewClient,
                      EvWalkRecursive ''/empty'', EvLog ''UploadDir success'', EvClientClose,
                      EvAdminClose],
            task_events = [], unreceived = []\<rparr>"
proof -
  have h1: "NewAdminClient (ok_world []) (Project gcs0) (Config gcs0) = None"
    by (simp add: ok_world_def)
  have h2: "provisioned (ok_world []) ''bkt''"
    by (simp add: provisioned_def ok_world_def)
  have h3: "NewClient (ok_world []) (Config gcs0) = None"
    by (simp add: ok_world_def)
  have h4: "walkRecursive (ok_world []) ''/empty'' = Inr []"
    by (simp add: ok_world_def)
  have p: "Project gcs0 = ''proj''"
    by (simp add: gcs0_def)
  from empty_batch [OF h1 h2 h3 h4, of first_ready "[]" "\<lparr>ContentType = []\<rparr>"] p
  have "UploadDir first_ready (ok_world []) (Some gcs0) ''bkt'' ''/empty'' [] \<lparr>ContentType = []\<rparr> =
           \<lparr>outcome = Returned None,
            events = [EvNewAdminClient ''proj'', EvCreateBucket ''bkt'', EvNewClient,
                      EvWalkRecursive ''/empty'', EvLog ''UploadDir success'', EvClientClose,
                      EvAdminClose],
            task_events = [], unreceived = []\<rparr>"
    by simp
  with h1 h2 h3 h4 show ?thesis by blast
qed

text \<open>
  C4.  Idempotent provisioning.  When \<open>CreateBucket\<close> fails with an error whose message
  contains ``You already own this bucket. Please select another name'', \<open>UploadFile\<close> and
  \<open>UploadDir\<close> do exactly what they do in the world in which \<open>CreateBucket\<close> succeeded
  for that bucket, and (the admin client given) go on to \<open>NewClient\<close>.  When the message
  does not contain that text, both methods return the error of \<open>CreateBucket\<close>.
\<close>

theorem idempotent_provisioning:
  "CreateBucket w bucket = Some err \<Longrightarrow>
     (already_owned err \<longrightarrow>
          UploadFile w g bucket src dst ret
            = UploadFile (w\<lparr>CreateBucket := (CreateBucket w)(bucket := None)\<rparr>) g bucket src dst ret
        \<and> UploadDir pick w g bucket src dst ret
            = UploadDir pick (w\<lparr>CreateBucket := (CreateBucket w)(bucket := None)\<rparr>) g bucket src dst ret
        \<and> (g = Some gcs \<longrightarrow> NewAdminClient w (Project gcs) (Config gcs) = None \<longrightarrow>
             EvNewClient \<in> set (snd (UploadFile w g bucket src dst ret))
           \<and> EvNewClient \<in> set (events (UploadDir pick w g bucket src dst ret))))
   \<and> (\<not> already_owned err \<longrightarrow> g = Some gcs
        \<longrightarrow> NewAdminClient w (Project gcs) (Config gcs) = None \<longrightarrow>
          fst (UploadFile w g bucket src dst ret) = Some err
        \<and> outcome (UploadDir pick w g bucket src dst ret) = Returned (Some err))"
proof -
  assume cb: "CreateBucket w bucket = Some err"
  let ?w = "w\<lparr>CreateBucket := (CreateBucket w)(bucket := None)\<rparr>"
  have a1: "UploadFile w g bucket src dst ret = UploadFile ?w g bucket src dst ret"
    if "already_owned err"
    using that cb by (simp add: UploadFile_def UploadFile_world split: option.splits)
  have a2: "UploadDir pick w g bucket src dst ret = UploadDir pick ?w g bucket src dst ret"
    if "already_owned err"
    using that cb by (simp add: UploadDir_def UploadDir_world split: option.splits)
  have a3: "EvNewClient \<in> set (snd (UploadFile w g bucket src dst ret))
           \<and> EvNewClient \<in> set (events (UploadDir pick w g bucket src dst ret))"
    if "already_owned err" "g = Some gcs" "NewAdminClient w (Project gcs) (Config gcs) = None"
  proof -
    from that(1) cb have p: "provisioned w bucket"
      by (simp add: provisioned_def)
    from UploadFile_proceeds [OF that(3) p, of src dst ret]
      UploadDir_proceeds [OF that(3) p, of pick src dst ret] that(2)
    show ?thesis by auto
  qed
  have b: "fst (UploadFile w g bucket src dst ret) = Some err
        \<and> outcome (UploadDir pick w g bucket src dst ret) = Returned (Some err)"
    if "\<not> already_owned err" "g = Some gcs" "NewAdminClient w (Project gcs) (Config gcs) = None"
    using that cb by (simp add: UploadFile_def UploadDir_def returns_def)
  from a1 a2 a3 b show ?thesis by blast
qed

theorem idempotent_provisioning_witness:
  "CreateBucket owned_world ''bkt'' = Some owned
   \<and> already_owned owned
   \<and> fst (UploadFile owned_world (Some gcs0) ''bkt'' ''/root/a.txt'' ''a.txt'' \<lparr>ContentType = []\<rparr>) = None
   \<and> UploadFile owned_world (Some gcs0) ''bkt'' ''/root/a.txt'' ''a.txt'' \<lparr>ContentType = []\<rparr>
       = UploadFile (owned_world\<lparr>CreateBucket := (CreateBucket owned_world)(''bkt'' := None)\<rparr>)
           (Some gcs0) ''bkt'' ''/root/a.txt'' ''a.txt'' \<lparr>ContentType = []\<rparr>
   \<and> CreateBucket forbidden_world ''bkt'' = Some forbidden
   \<and> \<not> already_owned forbidden
   \<and> fst (UploadFile forbidden_world (Some gcs0) ''bkt'' ''/root/a.txt'' ''a.txt'' \<lparr>ContentType = []\<rparr>)
       = Some forbidden
   \<and> outcome (UploadDir first_ready forbidden_world (Some gcs0) ''bkt'' ''/root'' [] \<lparr>ContentType = []\<rparr>)
       = Returned (Some forbidden)"
proof -
  have h1: "CreateBucket owned_world ''bkt'' = Some owned"
    by (simp add: owned_world_def ok_world_def)
  have h2: "already_owned owned"
    by (simp add: already_owned_def owned_def)
  have h3: "CreateBucket forbidden_world ''bkt'' = Some forbidden"
    by (simp add: forbidden_world_def ok_world_def)
  have h4: "\<not> already_owned forbidden"
    by (simp add: already_owned_def forbidden_def)
  have h5: "NewAdminClient forbidden_world (Project gcs0) (Config gcs0) = None"
    by (simp add: forbidden_world_def ok_world_def)
  have v: "fst (UploadFile owned_world (Some gcs0) ''bkt'' ''/root/a.txt'' ''a.txt'' \<lparr>ContentType = []\<rparr>) = None"
    by (simp add: eval_defs h2)
  from idempotent_provisioning [OF h1, of "Some gcs0" "''/root/a.txt''" "''a.txt''"
      "\<lparr>ContentType = []\<rparr>" first_ready gcs0] h2
  have c1: "UploadFile owned_world (Some gcs0) ''bkt'' ''/root/a.txt'' ''a.txt'' \<lparr>ContentType = []\<rparr>
       = UploadFile (owned_world\<lparr>CreateBucket := (CreateBucket owned_world)(''bkt'' := None)\<rparr>)
           (Some gcs0) ''bkt'' ''/root/a.txt'' ''a.txt'' \<lparr>ContentType = []\<rparr>"
    by blast
  from idempotent_provisioning [OF h3, of "Some gcs0" "''/root/a.txt''" "''a.txt''"
      "\<lparr>ContentType = []\<rparr>" first_ready gcs0] h4 h5
  have c2: "fst (UploadFile forbidden_world (Some gcs0) ''bkt'' ''/root/a.txt'' ''a.txt'' \<lparr>ContentType = []\<rparr>)
       = Some forbidden"
    by blast
  from idempotent_provisioning [OF h3, of "Some gcs0" "''/root''" "[]"
      "\<lparr>ContentType = []\<rparr>" first_ready gcs0] h4 h5
  have c3: "outcome (UploadDir first_ready forbidden_world (Some gcs0) ''bkt'' ''/root'' [] \<lparr>ContentType = []\<rparr>)
       = Returned (Some forbidden)"
    by blast
  from h1 h2 v c1 h3 h4 c2 c3 show ?thesis by blast
qed

text \<open>
  C5.  Provisioning comes first.  If \<open>CreateBucket\<close> fails with an error whose message
  does not contain the already-owned text, \<open>UploadDir\<close> returns that error after the
  deferred \<open>admin.Close\<close>: no walk, no goroutine.  And in every run in which a goroutine
  is started, provisioning let the method go on and the call of \<open>CreateBucket\<close> stands in
  the trace before the first \<open>go\<close>.
\<close>

theorem provisioning_first:
  "(g = Some gcs \<longrightarrow> NewAdminClient w (Project gcs) (Config gcs) = None
      \<longrightarrow> CreateBucket w bucket = Some err \<longrightarrow> \<not> already_owned err
      \<longrightarrow> UploadDir pick w g bucket src dst ret =
            \<lparr>outcome = Returned (Some err),
             events = [EvNewAdminClient (Project gcs), EvCreateBucket bucket, EvAdminClose],
             task_events = [], unreceived = []\<rparr>)
   \<and> (task_events (UploadDir pick w g bucket src dst ret) \<noteq> []
        \<or> filter is_go (events (UploadDir pick w g bucket src dst ret)) \<noteq> []
      \<longrightarrow> provisioned w bucket
          \<and> EvCreateBucket bucket
              \<in> set (takeWhile (\<lambda>ev. \<not> is_go ev) (events (UploadDir pick w g bucket src dst ret))))"
proof -
  let ?r = "UploadDir pick w g bucket src dst ret"
  have a: "?r = \<lparr>outcome = Returned (Some err),
             events = [EvNewAdminClient (Project gcs), EvCreateBucket bucket, EvAdminClose],
             task_events = [], unreceived = []\<rparr>"
    if "g = Some gcs" "NewAdminClient w (Project gcs) (Config gcs) = None"
      "CreateBucket w bucket = Some err" "\<not> already_owned err"
    using that by (simp add: UploadDir_def returns_def)
  have b: "provisioned w bucket
          \<and> EvCreateBucket bucket \<in> set (takeWhile (\<lambda>ev. \<not> is_go ev) (events ?r))"
    if started: "task_events ?r \<noteq> [] \<or> filter is_go (events ?r) \<noteq> []"
  proof -
    from started UploadDir_early [of g w bucket src pick dst ret]
    obtain gcs' fmap where g: "g = Some gcs'"
      and hyps: "NewAdminClient w (Project gcs') (Config gcs') = None" "provisioned w bucket"
        "NewClient w (Config gcs') = None" "walkRecursive w src = Inr fmap"
      by blast
    from UploadDir_uploads [OF hyps, of pick dst ret] g
    obtain tl where "events ?r = [EvNewAdminClient (Project gcs'), EvCreateBucket bucket,
                                  EvNewClient, EvWalkRecursive src] @ tl"
      by auto
    then have "EvCreateBucket bucket \<in> set (takeWhile (\<lambda>ev. \<not> is_go ev) (events ?r))"
      by simp
    with hyps(2) show ?thesis by simp
  qed
  from a b show ?thesis by blast
qed

theorem provisioning_first_witness:
  "CreateBucket forbidden_world ''bkt'' = Some forbidden
   \<and> \<not> already_owned forbidden
   \<and> UploadDir first_ready forbidden_world (Some gcs0) ''bkt'' ''/root'' [] \<lparr>ContentType = []\<rparr> =
            \<lparr>outcome = Returned (Some forbidden),
             events = [EvNewAdminClient ''proj'', EvCreateBucket ''bkt'', EvAdminClose],
             task_events = [], unreceived = []\<rparr>
   \<and> task_events (UploadDir first_ready (ok_world tree) (Some gcs0) ''bkt'' ''/root'' []
                    \<lparr>ContentType = []\<rparr>) \<noteq> []
   \<and> EvCreateBucket ''bkt''
        \<in> set (takeWhile (\<lambda>ev. \<not> is_go ev)
                 (events (UploadDir first_ready (ok_world tree) (Some gcs0) ''bkt'' ''/root'' []
                            \<lparr>ContentType = []\<rparr>)))"
proof -
  have h1: "NewAdminClient forbidden_world (Project gcs0) (Config gcs0) = None"
    by (simp add: forbidden_world_def ok_world_def)
  have h2: "CreateBucket forbidden_world ''bkt'' = Some forbidden"
    by (simp add: forbidden_world_def ok_world_def)
  have h3: "\<not> already_owned forbidden"
    by (simp add: already_owned_def forbidden_def)
  have p: "Project gcs0 = ''proj''"
    by (simp add: gcs0_def)
  have h4: "task_events (UploadDir first_ready (ok_world tree) (Some gcs0) ''bkt'' ''/root'' []
                    \<lparr>ContentType = []\<rparr>) \<noteq> []"
    by (simp add: eval_defs)
  from provisioning_first [of "Some gcs0" gcs0 forbidden_world "''bkt''" forbidden first_ready
      "''/root''" "[]" "\<lparr>ContentType = []\<rparr>"] h1 h2 h3 p
  have c1: "UploadDir first_ready forbidden_world (Some gcs0) ''bkt'' ''/root'' [] \<lparr>ContentType = []\<rparr> =
            \<lparr>outcome = Returned (Some forbidden),
             events = [EvNewAdminClient ''proj'', EvCreateBucket ''bkt'', EvAdminClose],
             task_events = [], unreceived = []\<rparr>"
    by simp
  from provisioning_first [of "Some gcs0" gcs0 "ok_world tree" "''bkt''" forbidden first_ready
      "''/root''" "[]" "\<lparr>ContentType = []\<rparr>"] h4
  have c2: "EvCreateBucket ''bkt''
        \<in> set (takeWhile (\<lambda>ev. \<not> is_go ev)
                 (events (UploadDir first_ready (ok_world tree) (Some gcs0) ''bkt'' ''/root'' []
                            \<lparr>ContentType = []\<rparr>)))"
    by blast
  from h2 h3 c1 h4 c2 show ?thesis by blast
qed

text \<open>
  C6.  Exactly one signal.  Whatever the world answers to the read, the write and the
  close, the goroutine of \<open>UploadDir\<close> sends once: either the token on \<open>donec\<close> or one
  error on \<open>errc\<close>; the send is its last step, nothing is sent before.  This holds of
  every goroutine of every run of \<open>UploadDir\<close>.
\<close>

theorem exactly_one_signal:
  "(sends (UploadDir_task w ret bucket source destination) = [Done]
      \<or> (\<exists>err. sends (UploadDir_task w ret bucket source destination) = [Err err]))
   \<and> sends (butlast (UploadDir_task w ret bucket source destination)) = []
   \<and> (\<forall>t \<in> set (task_events (UploadDir pick w g bucket src dst ret)).
         length (sends t) = 1 \<and> sends (butlast t) = [])"
proof -
  have a: "sends (UploadDir_task w ret bucket source destination) = [Done]
      \<or> (\<exists>err. sends (UploadDir_task w ret bucket source destination) = [Err err])"
    by (simp add: task_sends split: sum.splits option.splits)
  have b: "length (sends t) = 1 \<and> sends (butlast t) = []"
    if "t \<in> set (task_events (UploadDir pick w g bucket src dst ret))" for t
    using UploadDir_tasks [OF that] length_task_sends task_last by auto
  from a b task_last show ?thesis by blast
qed

theorem exactly_one_signal_witness:
  "task_events (UploadDir last_ready unreadable_world (Some gcs0) ''bkt'' ''/root'' []
                  \<lparr>ContentType = []\<rparr>)
     = [UploadDir_task unreadable_world \<lparr>ContentType = []\<rparr> ''bkt'' ''/root/a.txt'' ''a.txt'',
        UploadDir_task unreadable_world \<lparr>ContentType = []\<rparr> ''bkt'' ''/root/sub/b.txt'' ''sub/b.txt'']
   \<and> sends (UploadDir_task unreadable_world \<lparr>ContentType = []\<rparr> ''bkt'' ''/root/a.txt'' ''a.txt'')
       = [Done]
   \<and> sends (UploadDir_task unreadable_world \<lparr>ContentType = []\<rparr> ''bkt'' ''/root/sub/b.txt'' ''sub/b.txt'')
       = [Err denied]
   \<and> length (sends (UploadDir_task unreadable_world \<lparr>ContentType = []\<rparr> ''bkt'' ''/root/sub/b.txt'' ''sub/b.txt''))
       = 1"
proof -
  let ?r = "UploadDir last_ready unreadable_world (Some gcs0) ''bkt'' ''/root'' []
                  \<lparr>ContentType = []\<rparr>"
  let ?a = "UploadDir_task unreadable_world \<lparr>ContentType = []\<rparr> ''bkt'' ''/root/a.txt'' ''a.txt''"
  let ?b = "UploadDir_task unreadable_world \<lparr>ContentType = []\<rparr> ''bkt'' ''/root/sub/b.txt'' ''sub/b.txt''"
  have ts: "task_events ?r = [?a, ?b]"
    by (simp add: UploadDir_def UploadDir_client_def UploadDir_fanout_def run_simps returns_def
        wait_loop.simps chosen_def others_def ok_world_def unreadable_world_def gcs0_def
        tree_def last_ready_def task_sends split: loop_exit.splits)
  then have m: "?b \<in> set (task_events ?r)"
    by simp
  have sa: "sends ?a = [Done]"
    by (simp add: task_sends unreadable_world_def ok_world_def)
  have sb: "sends ?b = [Err denied]"
    by (simp add: task_sends unreadable_world_def ok_world_def)
  from exactly_one_signal [of unreadable_world "\<lparr>ContentType = []\<rparr>" "''bkt''" "''/root/a.txt''"
      "''a.txt''" last_ready "Some gcs0" "''/root''" "[]"] m
  have "length (sends ?b) = 1"
    by blast
  with ts sa sb show ?thesis by blast
qed

text \<open>
  C7.  The content type is assigned if and only if the option is set.  In a run of
  \<open>UploadFile\<close> the field \<open>ContentType\<close> of the writer is assigned once if the option
  is not empty and the writer was opened, and never otherwise; in a goroutine of
  \<open>UploadDir\<close>, which always opens its writer, once if the option is not empty and never
  otherwise.  In both, no assignment stands at or after the first write: the assignment
  comes before any data is written.
\<close>

theorem content_type_iff_option:
  "filter is_set_content_type (snd (UploadFile w g bucket src dst ret))
     = (if ContentType ret \<noteq> [] \<and> EvNewWriter bucket dst \<in> set (snd (UploadFile w g bucket src dst ret))
        then [EvSetContentType bucket dst (ContentType ret)] else [])
   \<and> filter is_set_content_type
        (dropWhile (\<lambda>ev. \<not> is_write ev) (snd (UploadFile w g bucket src dst ret))) = []
   \<and> filter is_set_content_type (UploadDir_task w ret bucket source destination)
     = (if ContentType ret \<noteq> [] then [EvSetContentType bucket destination (ContentType ret)]
        else [])
   \<and> filter is_set_content_type
        (dropWhile (\<lambda>ev. \<not> is_write ev) (UploadDir_task w ret bucket source destination)) = []"
proof -
  let ?t = "snd (UploadFile w g bucket src dst ret)"
  note obj = UploadFile_object_content_type [of w ret bucket src dst]
  have a: "filter is_set_content_type ?t
     = (if ContentType ret \<noteq> [] \<and> EvNewWriter bucket dst \<in> set ?t
        then [EvSetContentType bucket dst (ContentType ret)] else [])"
    using obj by (simp add: UploadFile_trace split: option.splits)
  have b: "filter is_set_content_type (dropWhile (\<lambda>ev. \<not> is_write ev) ?t) = []"
  proof (cases "\<exists>gcs. g = Some gcs \<and> NewAdminClient w (Project gcs) (Config gcs) = None
                  \<and> provisioned w bucket \<and> NewClient w (Config gcs) = None")
    case True
    then obtain gcs where "g = Some gcs" "NewAdminClient w (Project gcs) (Config gcs) = None"
      "provisioned w bucket" "NewClient w (Config gcs) = None"
      by blast
    then have "?t = [EvNewAdminClient (Project gcs), EvCreateBucket bucket, EvNewClient]
                    @ snd (UploadFile_object w ret bucket src dst)
                    @ [EvClientClose, EvAdminClose]"
      by (simp add: UploadFile_trace)
    then show ?thesis
      using obj by (simp add: after_write_closes)
  next
    case False
    then have "filter is_set_content_type ?t = []"
      by (auto simp: UploadFile_trace split: option.splits)
    then show ?thesis
      by (rule after_write_subset)
  qed
  have c: "filter is_set_content_type (UploadDir_task w ret bucket source destination)
     = (if ContentType ret \<noteq> [] then [EvSetContentType bucket destination (ContentType ret)]
        else [])"
    by (simp add: UploadDir_task_def Let_def split: sum.splits option.splits)
  have d: "filter is_set_content_type
        (dropWhile (\<lambda>ev. \<not> is_write ev) (UploadDir_task w ret bucket source destination)) = []"
    by (simp add: UploadDir_task_def Let_def split: sum.splits option.splits)
  from a b c d show ?thesis by blast
qed

theorem content_type_iff_option_witness:
  "filter is_set_content_type
     (snd (UploadFile (ok_world tree) (Some gcs0) ''bkt'' ''/root/a.txt'' ''a.txt''
             \<lparr>ContentType = ''text/plain''\<rparr>))
     = [EvSetContentType ''bkt'' ''a.txt'' ''text/plain'']
   \<and> filter is_set_content_type
     (snd (UploadFile (ok_world tree) (Some gcs0) ''bkt'' ''/root/a.txt'' ''a.txt''
             \<lparr>ContentType = []\<rparr>)) = []"
proof -
  have n: "EvNewWriter ''bkt'' ''a.txt''
      \<in> set (snd (UploadFile (ok_world tree) (Some gcs0) ''bkt'' ''/root/a.txt'' ''a.txt''
             \<lparr>ContentType = ''text/plain''\<rparr>))"
    by (simp add: eval_defs)
  from content_type_iff_option [of "ok_world tree" "Some gcs0" "''bkt''" "''/root/a.txt''"
      "''a.txt''" "\<lparr>ContentType = ''text/plain''\<rparr>"] n
  have a: "filter is_set_content_type
     (snd (UploadFile (ok_world tree) (Some gcs0) ''bkt'' ''/root/a.txt'' ''a.txt''
             \<lparr>ContentType = ''text/plain''\<rparr>))
     = [EvSetContentType ''bkt'' ''a.txt'' ''text/plain'']"
    by simp
  from content_type_iff_option [of "ok_world tree" "Some gcs0" "''bkt''" "''/root/a.txt''"
      "''a.txt''" "\<lparr>ContentType = []\<rparr>"]
  have b: "filter is_set_content_type
     (snd (UploadFile (ok_world tree) (Some gcs0) ''bkt'' ''/root/a.txt'' ''a.txt''
             \<lparr>ContentType = []\<rparr>)) = []"
    by simp
  from a b show ?thesis by blast
qed

text \<open>
  C8.  Verbatim propagation, as far as it goes.  That every error of a collaborator
  comes back to the caller does not hold in two places, both meant by the source: an
  error of \<open>CreateBucket\<close> with the already-owned text is dropped and the method goes on
  (here to success), and of two goroutines that fail \<open>UploadDir\<close> returns the error of
  the one it receives first, while the send of the other is never received.
\<close>

theorem verbatim_errors_counterexample:
  "CreateBucket owned_world ''bkt'' = Some owned
   \<and> EvCreateBucket ''bkt''
       \<in> set (snd (UploadFile owned_world (Some gcs0) ''bkt'' ''/root/a.txt'' ''a.txt''
                     \<lparr>ContentType = []\<rparr>))
   \<and> fst (UploadFile owned_world (Some gcs0) ''bkt'' ''/root/a.txt'' ''a.txt''
             \<lparr>ContentType = []\<rparr>) = None
   \<and> outcome (UploadDir first_ready owned_world (Some gcs0) ''bkt'' ''/root'' []
                \<lparr>ContentType = []\<rparr>) = Returned None
   \<and> sends (UploadDir_task locked_world \<lparr>ContentType = []\<rparr> ''bkt'' ''/root/sub/b.txt'' ''sub/b.txt'')
       = [Err (Errorf ''open /root/sub/b.txt: permission denied'')]
   \<and> outcome (UploadDir first_ready locked_world (Some gcs0) ''bkt'' ''/root'' []
                \<lparr>ContentType = []\<rparr>)
       = Returned (Some (Errorf ''open /root/a.txt: permission denied''))
   \<and> unreceived (UploadDir first_ready locked_world (Some gcs0) ''bkt'' ''/root'' []
                   \<lparr>ContentType = []\<rparr>)
       = [Err (Errorf ''open /root/sub/b.txt: permission denied'')]"
proof -
  have o: "already_owned owned"
    by (simp add: already_owned_def owned_def)
  have a: "CreateBucket owned_world ''bkt'' = Some owned"
    by (simp add: owned_world_def ok_world_def)
  have b: "UploadFile owned_world (Some gcs0) ''bkt'' ''/root/a.txt'' ''a.txt'' \<lparr>ContentType = []\<rparr>
     = (None, [EvNewAdminClient ''proj'', EvCreateBucket ''bkt'', EvNewClient,
               EvNewWriter ''bkt'' ''a.txt'', EvLog ''UploadFile: /root/a.txt ---> a.txt'',
               EvReadFile ''/root/a.txt'', EvWrite ''bkt'' ''a.txt'' [104, 105],
               EvCloseWriter ''bkt'' ''a.txt'', EvLog ''UploadFile success'', EvClientClose,
               EvAdminClose])"
    by (simp add: eval_defs o)
  have c: "outcome (UploadDir first_ready owned_world (Some gcs0) ''bkt'' ''/root'' []
                \<lparr>ContentType = []\<rparr>) = Returned None"
    by (simp add: eval_defs o)
  have d: "sends (UploadDir_task locked_world \<lparr>ContentType = []\<rparr> ''bkt'' ''/root/sub/b.txt'' ''sub/b.txt'')
       = [Err (Errorf ''open /root/sub/b.txt: permission denied'')]"
    by (simp add: task_sends locked_world_def ok_world_def)
  have e: "UploadDir first_ready locked_world (Some gcs0) ''bkt'' ''/root'' [] \<lparr>ContentType = []\<rparr>
       = \<lparr>outcome = Returned (Some (Errorf ''open /root/a.txt: permission denied'')),
          events = [EvNewAdminClient ''proj'', EvCreateBucket ''bkt'', EvNewClient,
                    EvWalkRecursive ''/root'', EvGo ''/root/a.txt'' ''a.txt'',
                    EvGo ''/root/sub/b.txt'' ''sub/b.txt'',
                    EvRecvErr (Errorf ''open /root/a.txt: permission denied''),
                    EvClientClose, EvAdminClose],
          task_events = [UploadDir_task locked_world \<lparr>ContentType = []\<rparr> ''bkt'' ''/root/a.txt'' ''a.txt'',
                         UploadDir_task locked_world \<lparr>ContentType = []\<rparr> ''bkt'' ''/root/sub/b.txt'' ''sub/b.txt''],
          unreceived = [Err (Errorf ''open /root/sub/b.txt: permission denied'')]\<rparr>"
    by (simp add: UploadDir_def UploadDir_client_def UploadDir_fanout_def run_simps returns_def
        wait_loop.simps chosen_def others_def ok_world_def locked_world_def gcs0_def
        tree_def first_ready_def task_sends)
  from a b c d e show ?thesis by simp
qed

text \<open>
  C8, amended.  With \<open>answer\<close> for the error a call met (an already-owned error of
  \<open>CreateBucket\<close> counting as none): an error met by a call of \<open>UploadFile\<close> is the
  value \<open>UploadFile\<close> returns, and an error \<open>UploadFile\<close> returns on a receiver that is
  not nil is the error met by one of its calls; the same holds of the goroutine of
  \<open>UploadDir\<close> and the error it sends, and of the calling goroutine of \<open>UploadDir\<close> and
  the value it returns, which is otherwise an error received from, and sent by, one of
  the goroutines.  The values are the same values: nothing wraps or translates them.  No
  call stands twice in a trace: nothing is retried.  \<open>NewGoogleCloudStorage\<close> returns
  the error of \<open>JWTConfigFromJSON\<close>.
\<close>

theorem verbatim_errors:
  "(\<forall>ev \<in> set (snd (UploadFile w (Some gcs) bucket src dst ret)).
      \<forall>e. answer w gcs ev = Some e
        \<longrightarrow> fst (UploadFile w (Some gcs) bucket src dst ret) = Some e)
   \<and> (\<forall>e. fst (UploadFile w (Some gcs) bucket src dst ret) = Some e
        \<longrightarrow> (\<exists>ev \<in> set (snd (UploadFile w (Some gcs) bucket src dst ret)).
               answer w gcs ev = Some e))
   \<and> distinct (filter is_call (snd (UploadFile w (Some gcs) bucket src dst ret)))
   \<and> (\<forall>ev \<in> set (UploadDir_task w ret bucket source destination).
        \<forall>e. answer w gcs ev = Some e
          \<longrightarrow> sends (UploadDir_task w ret bucket source destination) = [Err e])
   \<and> (\<forall>e. sends (UploadDir_task w ret bucket source destination) = [Err e]
        \<longrightarrow> (\<exists>ev \<in> set (UploadDir_task w ret bucket source destination).
               answer w gcs ev = Some e))
   \<and> distinct (filter is_call (UploadDir_task w ret bucket source destination))
   \<and> (\<forall>ev \<in> set (events (UploadDir pick w (Some gcs) bucket src dst ret)).
        \<forall>e. answer w gcs ev = Some e
          \<longrightarrow> outcome (UploadDir pick w (Some gcs) bucket src dst ret) = Returned (Some e))
   \<and> (\<forall>e. outcome (UploadDir pick w (Some gcs) bucket src dst ret) = Returned (Some e) \<longrightarrow>
         (\<exists>ev \<in> set (events (UploadDir pick w (Some gcs) bucket src dst ret)).
            answer w gcs ev = Some e)
       \<or> (EvRecvErr e \<in> set (events (UploadDir pick w (Some gcs) bucket src dst ret))
           \<and> Err e \<in> set (concat (map sends
                 (task_events (UploadDir pick w (Some gcs) bucket src dst ret))))))
   \<and> distinct (filter is_call (events (UploadDir pick w (Some gcs) bucket src dst ret)))
   \<and> (\<forall>e. JWTConfigFromJSON w key = Inl e \<longrightarrow> NewGoogleCloudStorage w key project = Inl e)"
proof -
  have j: "\<forall>e. JWTConfigFromJSON w key = Inl e \<longrightarrow> NewGoogleCloudStorage w key project = Inl e"
    by (simp add: NewGoogleCloudStorage_def)
  have f2: "\<forall>e. fst (UploadFile w (Some gcs) bucket src dst ret) = Some e
        \<longrightarrow> (\<exists>ev \<in> set (snd (UploadFile w (Some gcs) bucket src dst ret)).
               answer w gcs ev = Some e)"
    using UploadFile_origin [of w gcs bucket src dst ret] by blast
  have t2: "\<forall>e. sends (UploadDir_task w ret bucket source destination) = [Err e]
        \<longrightarrow> (\<exists>ev \<in> set (UploadDir_task w ret bucket source destination).
               answer w gcs ev = Some e)"
    using task_origin [of w ret bucket source destination _ gcs] by blast
  note d = UploadDir_errors [of pick w gcs bucket src dst ret]
  from UploadFile_raised [of w gcs bucket src dst ret] f2
    UploadFile_calls [of w "Some gcs" bucket src dst ret]
    task_raised [of w ret bucket source destination gcs] t2
    task_calls [of w ret bucket source destination] d j
  show ?thesis by (intro conjI) blast+
qed

theorem verbatim_errors_witness:
  "EvCreateBucket ''bkt''
     \<in> set (snd (UploadFile forbidden_world (Some gcs0) ''bkt'' ''/root/a.txt'' ''a.txt''
                   \<lparr>ContentType = []\<rparr>))
   \<and> answer forbidden_world gcs0 (EvCreateBucket ''bkt'') = Some forbidden
   \<and> fst (UploadFile forbidden_world (Some gcs0) ''bkt'' ''/root/a.txt'' ''a.txt''
             \<lparr>ContentType = []\<rparr>) = Some forbidden
   \<and> EvReadFile ''/root/sub/b.txt''
       \<in> set (UploadDir_task unreadable_world \<lparr>ContentType = []\<rparr> ''bkt'' ''/root/sub/b.txt''
                ''sub/b.txt'')
   \<and> answer unreadable_world gcs0 (EvReadFile ''/root/sub/b.txt'') = Some denied
   \<and> sends (UploadDir_task unreadable_world \<lparr>ContentType = []\<rparr> ''bkt'' ''/root/sub/b.txt''
              ''sub/b.txt'') = [Err denied]"
proof -
  have no: "\<not> already_owned forbidden"
    by (simp add: already_owned_def forbidden_def)
  have a1: "EvCreateBucket ''bkt''
     \<in> set (snd (UploadFile forbidden_world (Some gcs0) ''bkt'' ''/root/a.txt'' ''a.txt''
                   \<lparr>ContentType = []\<rparr>))"
    by (simp add: eval_defs no)
  have a2: "answer forbidden_world gcs0 (EvCreateBucket ''bkt'') = Some forbidden"
    by (simp add: forbidden_world_def ok_world_def no)
  have b1: "EvReadFile ''/root/sub/b.txt''
       \<in> set (UploadDir_task unreadable_world \<lparr>ContentType = []\<rparr> ''bkt'' ''/root/sub/b.txt''
                ''sub/b.txt'')"
    by (simp add: UploadDir_task_def unreadable_world_def ok_world_def)
  have b2: "answer unreadable_world gcs0 (EvReadFile ''/root/sub/b.txt'') = Some denied"
    by (simp add: unreadable_world_def ok_world_def)
  from verbatim_errors [where w = forbidden_world and gcs = gcs0 and bucket = "''bkt''"
      and src = "''/root/a.txt''" and dst = "''a.txt''" and ret = "\<lparr>ContentType = []\<rparr>"] a1 a2
  have c1: "fst (UploadFile forbidden_world (Some gcs0) ''bkt'' ''/root/a.txt'' ''a.txt''
             \<lparr>ContentType = []\<rparr>) = Some forbidden"
    by blast
  from verbatim_errors [where w = unreadable_world and gcs = gcs0 and bucket = "''bkt''"
      and source = "''/root/sub/b.txt''" and destination = "''sub/b.txt''"
      and ret = "\<lparr>ContentType = []\<rparr>"] b1 b2
  have c2: "sends (UploadDir_task unreadable_world \<lparr>ContentType = []\<rparr> ''bkt'' ''/root/sub/b.txt''
              ''sub/b.txt'') = [Err denied]"
    by blast
  from a1 a2 c1 b1 b2 c2 show ?thesis by blast
qed

text \<open>
  C9.  A call of \<open>UploadFile\<close> or \<open>UploadDir\<close> on a nil receiver returns the error
  ``GoogleCloudStorage is nil''; the trace is empty, so no collaborator (network or file
  system) has been called, and no goroutine has been started.
\<close>

theorem nil_receiver:
  "UploadFile w None bucket src dst ret = (Some (Errorf ''GoogleCloudStorage is nil''), [])
   \<and> outcome (UploadDir pick w None bucket src dst ret)
       = Returned (Some (Errorf ''GoogleCloudStorage is nil''))
   \<and> events (UploadDir pick w None bucket src dst ret) = []
   \<and> task_events (UploadDir pick w None bucket src dst ret) = []"
  by (simp add: UploadFile_def UploadDir_def returns_def)

text \<open>
  C10.  \<open>UploadFile\<close> provisions the bucket too.  With the admin client given, a
  \<open>CreateBucket\<close> error without the already-owned text makes \<open>UploadFile\<close> return that
  error with nothing in its trace but the two admin calls and the deferred close: no
  writer, no read of the local file, no write.  With the already-owned text (and the
  client given) the writer is opened.  And in every run in which the writer is opened,
  provisioning let the method go on and the call of \<open>CreateBucket\<close> stands in the trace
  before \<open>NewWriter\<close>.
\<close>

theorem UploadFile_provisions:
  "(g = Some gcs \<longrightarrow> NewAdminClient w (Project gcs) (Config gcs) = None
      \<longrightarrow> CreateBucket w bucket = Some err \<longrightarrow> \<not> already_owned err
      \<longrightarrow> UploadFile w g bucket src dst ret
            = (Some err, [EvNewAdminClient (Project gcs), EvCreateBucket bucket, EvAdminClose]))
   \<and> (g = Some gcs \<longrightarrow> NewAdminClient w (Project gcs) (Config gcs) = None
      \<longrightarrow> CreateBucket w bucket = Some err \<longrightarrow> already_owned err
      \<longrightarrow> NewClient w (Config gcs) = None
      \<longrightarrow> EvNewWriter bucket dst \<in> set (snd (UploadFile w g bucket src dst ret)))
   \<and> (EvNewWriter bucket dst \<in> set (snd (UploadFile w g bucket src dst ret))
      \<longrightarrow> provisioned w bucket
          \<and> EvCreateBucket bucket
              \<in> set (takeWhile (\<lambda>ev. ev \<noteq> EvNewWriter bucket dst)
                       (snd (UploadFile w g bucket src dst ret))))"
proof -
  let ?t = "snd (UploadFile w g bucket src dst ret)"
  have a: "UploadFile w g bucket src dst ret
            = (Some err, [EvNewAdminClient (Project gcs), EvCreateBucket bucket, EvAdminClose])"
    if "g = Some gcs" "NewAdminClient w (Project gcs) (Config gcs) = None"
      "CreateBucket w bucket = Some err" "\<not> already_owned err"
    using that by (simp add: UploadFile_def)
  have b: "EvNewWriter bucket dst \<in> set ?t"
    if "g = Some gcs" "NewAdminClient w (Project gcs) (Config gcs) = None"
      "CreateBucket w bucket = Some err" "already_owned err" "NewClient w (Config gcs) = None"
    using that UploadFile_object_content_type [of w ret bucket src dst]
    by (simp add: UploadFile_trace provisioned_def)
  have c: "provisioned w bucket
          \<and> EvCreateBucket bucket \<in> set (takeWhile (\<lambda>ev. ev \<noteq> EvNewWriter bucket dst) ?t)"
    if nw: "EvNewWriter bucket dst \<in> set ?t"
  proof (cases "\<exists>gcs. g = Some gcs \<and> NewAdminClient w (Project gcs) (Config gcs) = None
                  \<and> provisioned w bucket \<and> NewClient w (Config gcs) = None")
    case True
    then obtain gcs' where "g = Some gcs'" "NewAdminClient w (Project gcs') (Config gcs') = None"
      and p: "provisioned w bucket" and "NewClient w (Config gcs') = None"
      by blast
    then have "?t = [EvNewAdminClient (Project gcs'), EvCreateBucket bucket, EvNewClient]
                    @ snd (UploadFile_object w ret bucket src dst)
                    @ [EvClientClose, EvAdminClose]"
      by (simp add: UploadFile_trace)
    then have "EvCreateBucket bucket \<in> set (takeWhile (\<lambda>ev. ev \<noteq> EvNewWriter bucket dst) ?t)"
      by simp
    with p show ?thesis by simp
  next
    case False
    then have "EvNewWriter bucket dst \<notin> set ?t"
      by (auto simp: UploadFile_trace split: option.splits)
    with nw show ?thesis by simp
  qed
  from a b c show ?thesis by blast
qed

theorem UploadFile_provisions_witness:
  "NewAdminClient forbidden_world (Project gcs0) (Config gcs0) = None
   \<and> CreateBucket forbidden_world ''bkt'' = Some forbidden
   \<and> \<not> already_owned forbidden
   \<and> UploadFile forbidden_world (Some gcs0) ''bkt'' ''/root/a.txt'' ''a.txt'' \<lparr>ContentType = []\<rparr>
       = (Some forbidden, [EvNewAdminClient ''proj'', EvCreateBucket ''bkt'', EvAdminClose])
   \<and> CreateBucket owned_world ''bkt'' = Some owned
   \<and> already_owned owned
   \<and> EvNewWriter ''bkt'' ''a.txt''
       \<in> set (snd (UploadFile owned_world (Some gcs0) ''bkt'' ''/root/a.txt'' ''a.txt''
                     \<lparr>ContentType = []\<rparr>))
   \<and> EvCreateBucket ''bkt''
       \<in> set (takeWhile (\<lambda>ev. ev \<noteq> EvNewWriter ''bkt'' ''a.txt'')
                (snd (UploadFile owned_world (Some gcs0) ''bkt'' ''/root/a.txt'' ''a.txt''
                        \<lparr>ContentType = []\<rparr>)))"
proof -
  have h1: "NewAdminClient forbidden_world (Project gcs0) (Config gcs0) = None"
    by (simp add: forbidden_world_def ok_world_def)
  have h2: "CreateBucket forbidden_world ''bkt'' = Some forbidden"
    by (simp add: forbidden_world_def ok_world_def)
  have h3: "\<not> already_owned forbidden"
    by (simp add: already_owned_def forbidden_def)
  have p: "Project gcs0 = ''proj''"
    by (simp add: gcs0_def)
  have k1: "NewAdminClient owned_world (Project gcs0) (Config gcs0) = None"
    by (simp add: owned_world_def ok_world_def)
  have k2: "CreateBucket owned_world ''bkt'' = Some owned"
    by (simp add: owned_world_def ok_world_def)
  have k3: "already_owned owned"
    by (simp add: already_owned_def owned_def)
  have k4: "NewClient owned_world (Config gcs0) = None"
    by (simp add: owned_world_def ok_world_def)
  from UploadFile_provisions [of "Some gcs0" gcs0 forbidden_world "''bkt''" forbidden
      "''/root/a.txt''" "''a.txt''" "\<lparr>ContentType = []\<rparr>"] h1 h2 h3 p
  have c1: "UploadFile forbidden_world (Some gcs0) ''bkt'' ''/root/a.txt'' ''a.txt'' \<lparr>ContentType = []\<rparr>
       = (Some forbidden, [EvNewAdminClient ''proj'', EvCreateBucket ''bkt'', EvAdminClose])"
    by simp
  from UploadFile_provisions [of "Some gcs0" gcs0 owned_world "''bkt''" owned
      "''/root/a.txt''" "''a.txt''" "\<lparr>ContentType = []\<rparr>"] k1 k2 k3 k4
  have c2: "EvNewWriter ''bkt'' ''a.txt''
       \<in> set (snd (UploadFile owned_world (Some gcs0) ''bkt'' ''/root/a.txt'' ''a.txt''
                     \<lparr>ContentType = []\<rparr>))"
    and c3: "EvCreateBucket ''bkt''
       \<in> set (takeWhile (\<lambda>ev. ev \<noteq> EvNewWriter ''bkt'' ''a.txt'')
                (snd (UploadFile owned_world (Some gcs0) ''bkt'' ''/root/a.txt'' ''a.txt''
                        \<lparr>ContentType = []\<rparr>)))"
    by blast+
  from h1 h2 h3 c1 k2 k3 c2 c3 show ?thesis by blast
qed

end
